theory Spec2Isabelle
  imports Complex_Main
begin

section \<open>Tensors, errors and the external libraries\<close>

text \<open>
  The script \<^verbatim>\<open>preference_bo.py\<close> works on tensors of floating-point numbers.
  A one-dimensional tensor is modelled as a list of reals, a two-dimensional tensor
  (\<open>n\<close> points of dimension \<open>d\<close>) as a list of rows, and an \<open>m \<times> 2\<close> index array of
  comparisons as a list of pairs of naturals (winner, loser).  Floating-point numbers
  are idealised as reals, so a cast between float and double is the identity.
\<close>

type_synonym comparisons = "(nat \<times> nat) list"

datatype error = ValueError | IndexError | KeyError | RuntimeError

text \<open>Sequencing of fallible steps: the first exception raised aborts the run.\<close>

definition bindE :: "error + 'a \<Rightarrow> ('a \<Rightarrow> error + 'b) \<Rightarrow> error + 'b" where
  "bindE m f = (case m of Inl e \<Rightarrow> Inl e | Inr x \<Rightarrow> f x)"

text \<open>A \<^verbatim>\<open>for x in xs\<close> loop whose body updates the state and may raise.\<close>

fun for_each :: "('a \<Rightarrow> 's \<Rightarrow> error + 's) \<Rightarrow> 'a list \<Rightarrow> 's \<Rightarrow> error + 's" where
  "for_each body [] s = Inr s"
| "for_each body (x # xs) s =
     (case body x s of Inl e \<Rightarrow> Inl e | Inr s' \<Rightarrow> for_each body xs s')"

text \<open>
  The acquisition function object built by \<^verbatim>\<open>qNoisyExpectedImprovement(model=...,
  X_baseline=...)\<close>: it holds the model and the baseline points it was given.
\<close>

record 'm acquisition =
  acq_model :: 'm
  X_baseline :: "real list list"

text \<open>
  The calls into torch, numpy and BoTorch.  Their code is not part of the script, so
  they are parameters of the model.  \<open>'r\<close> is the ambient process-wide random state,
  which every sampling call reads and advances; \<open>'m\<close> is a preference model and
  \<open>'s\<close> a model's state dict.  \<open>random_choice N k replace\<close> is the sampler behind
  \<^verbatim>\<open>np.random.choice(range(N), k, replace=replace)\<close> once numpy has accepted the
  arguments.
\<close>

record ('r, 'm, 's) library =
  torch_rand :: "nat \<Rightarrow> nat \<Rightarrow> 'r \<Rightarrow> real list list \<times> 'r"
  random_choice :: "nat \<Rightarrow> nat \<Rightarrow> bool \<Rightarrow> 'r \<Rightarrow> nat list \<times> 'r"
  standard_normal :: "nat \<Rightarrow> 'r \<Rightarrow> real list \<times> 'r"
  PairwiseGP :: "real list list \<Rightarrow> comparisons \<Rightarrow> 'm"
  load_state_dict :: "'m \<Rightarrow> 's \<Rightarrow> 'm"
  state_dict :: "'m \<Rightarrow> 's"
  fit_gpytorch_model :: "'m \<Rightarrow> 'r \<Rightarrow> 'm \<times> 'r"
  optimize_acqf ::
    "'m acquisition \<Rightarrow> real list list \<Rightarrow> nat \<Rightarrow> nat \<Rightarrow> nat \<Rightarrow> 'r \<Rightarrow> real list list \<times> 'r"

text \<open>
  What the libraries promise about the shape and range of what they return:
  \<^verbatim>\<open>torch.rand(n, d)\<close> is \<open>n\<close> rows of \<open>d\<close> numbers in \<open>[0, 1)\<close>; an accepted
  \<^verbatim>\<open>np.random.choice\<close> returns \<open>k\<close> indices below \<open>N\<close>, distinct when drawn
  without replacement; \<^verbatim>\<open>np.random.standard_normal(k)\<close> returns \<open>k\<close> numbers;
  \<^verbatim>\<open>optimize_acqf(..., q=q, ...)\<close> returns \<open>q\<close> candidate points.
\<close>

definition rand_ok :: "('r, 'm, 's) library \<Rightarrow> bool" where
  "rand_ok L \<longleftrightarrow>
     (\<forall>n d r. length (fst (torch_rand L n d r)) = n \<and>
        (\<forall>x \<in> set (fst (torch_rand L n d r)). length x = d \<and> (\<forall>c \<in> set x. 0 \<le> c \<and> c < 1)))"

definition choice_ok :: "('r, 'm, 's) library \<Rightarrow> bool" where
  "choice_ok L \<longleftrightarrow>
     (\<forall>N k replace r. (N \<noteq> 0 \<or> k = 0) \<longrightarrow> (replace \<or> k \<le> N) \<longrightarrow>
        length (fst (random_choice L N k replace r)) = k \<and>
        (\<forall>i \<in> set (fst (random_choice L N k replace r)). i < N) \<and>
        (replace \<or> distinct (fst (random_choice L N k replace r))))"

definition normal_ok :: "('r, 'm, 's) library \<Rightarrow> bool" where
  "normal_ok L \<longleftrightarrow> (\<forall>k r. length (fst (standard_normal L k r)) = k)"

definition acqf_ok :: "('r, 'm, 's) library \<Rightarrow> bool" where
  "acqf_ok L \<longleftrightarrow>
     (\<forall>acq bounds q nr ns r. length (fst (optimize_acqf L acq bounds q nr ns r)) = q)"

section \<open>Data generation\<close>

text \<open>
  \<^verbatim>\<open>torch.sqrt(torch.arange(d, dtype=torch.float) + 1)\<close>: the weights
  \<open>\<surd>1, \<surd>2, \<dots>, \<surd>d\<close>.
\<close>

definition sqrt_weights :: "nat \<Rightarrow> real list" where
  "sqrt_weights d = map (\<lambda>i. sqrt (real i + 1)) [0..<d]"

text \<open>
  \<^verbatim>\<open>utility\<close> on one point (a tensor of rank one): the elementwise product with
  the weights, summed over the last dimension.
\<close>

definition utility_point :: "real list \<Rightarrow> real" where
  "utility_point x = sum_list (map2 (*) x (sqrt_weights (length x)))"

text \<open>\<^verbatim>\<open>utility\<close> on a batch of points: one scalar per row.\<close>

definition utility :: "real list list \<Rightarrow> real list" where
  "utility X = map utility_point X"

definition generate_data ::
  "('r, 'm, 's) library \<Rightarrow> nat \<Rightarrow> nat \<Rightarrow> 'r \<Rightarrow> (real list list \<times> real list) \<times> 'r" where
  "generate_data L n d r =
     (let (X, r') = torch_rand L n d r;
          y = utility X
      in ((X, y), r'))"

text \<open>\<^verbatim>\<open>list(combinations(range(n), 2))\<close>: the pairs \<open>(i, j)\<close> with \<open>i < j < n\<close>,
  in lexicographic order.\<close>

definition combinations2 :: "nat \<Rightarrow> (nat \<times> nat) list" where
  "combinations2 n = concat (map (\<lambda>i. map (\<lambda>j. (i, j)) [Suc i..<n]) [0..<n])"

text \<open>
  \<^verbatim>\<open>np.random.choice(range(N), k, replace=replace)\<close>.  numpy raises
  \<^verbatim>\<open>ValueError\<close> for an empty population unless no sample is taken, and for a
  sample larger than the population when \<open>replace\<close> is false; otherwise it samples.
\<close>

definition np_random_choice ::
  "('r, 'm, 's) library \<Rightarrow> nat \<Rightarrow> nat \<Rightarrow> bool \<Rightarrow> 'r \<Rightarrow> error + (nat list \<times> 'r)" where
  "np_random_choice L N k replace r =
     (if N = 0 \<and> k \<noteq> 0 then Inl ValueError
      else if \<not> replace \<and> N < k then Inl ValueError
      else Inr (random_choice L N k replace r))"

text \<open>Fancy indexing \<^verbatim>\<open>a[idx]\<close> of the rows of an array by an index array:
  an index out of bounds raises \<^verbatim>\<open>IndexError\<close>.\<close>

definition take_rows :: "'a list \<Rightarrow> nat list \<Rightarrow> error + 'a list" where
  "take_rows a idx =
     (if \<forall>k \<in> set idx. k < length a then Inr (map (\<lambda>k. a ! k) idx) else Inl IndexError)"

text \<open>
  \<^verbatim>\<open>generate_comparisons(y, n_comp, noise, replace)\<close>.  With fewer than two latent
  values \<^verbatim>\<open>all_pairs\<close> is the empty one-dimensional array \<^verbatim>\<open>np.array([])\<close>, and
  the column access \<^verbatim>\<open>comp_pairs[:, 0]\<close> raises \<^verbatim>\<open>IndexError\<close>.  (Older numpy
  versions refuse an empty population in \<^verbatim>\<open>np.random.choice\<close> even when no sample
  is taken and raise \<^verbatim>\<open>ValueError\<close> there; the call fails either way.)
\<close>

definition generate_comparisons ::
  "('r, 'm, 's) library \<Rightarrow> real list \<Rightarrow> nat \<Rightarrow> real \<Rightarrow> bool \<Rightarrow> 'r \<Rightarrow> error + (comparisons \<times> 'r)" where
  "generate_comparisons L y n_comp noise replace r =
     (let all_pairs = combinations2 (length y) in
      bindE (np_random_choice L (length all_pairs) n_comp replace r) (\<lambda>(idx, r1).
      bindE (take_rows all_pairs idx) (\<lambda>comp_pairs.
        if all_pairs = [] then Inl IndexError
        else
          let (z0, r2) = standard_normal L (length comp_pairs) r1;
              c0 = map2 (\<lambda>p z. y ! fst p + z * noise) comp_pairs z0;
              (z1, r3) = standard_normal L (length comp_pairs) r2;
              c1 = map2 (\<lambda>p z. y ! snd p + z * noise) comp_pairs z1;
              reverse_comp = map2 (<) c0 c1;
              comp_pairs = map2 (\<lambda>p rev. if rev then (snd p, fst p) else p) comp_pairs reverse_comp
          in Inr (comp_pairs, r3))))"

section \<open>Model fitting and the merge of new data\<close>

text \<open>
  \<^verbatim>\<open>init_and_fit_model(X, comp, state_dict)\<close>.  The marginal log likelihood object
  wraps the model, and fitting it fits the model; both callers drop the first
  component of the returned pair, so only the model is returned here.
\<close>

definition init_and_fit_model ::
  "('r, 'm, 's) library \<Rightarrow> real list list \<Rightarrow> comparisons \<Rightarrow> 's option \<Rightarrow> 'r \<Rightarrow> 'm \<times> 'r" where
  "init_and_fit_model L X comp' sd r =
     (let model = PairwiseGP L X comp';
          model = (case sd of None \<Rightarrow> model | Some s \<Rightarrow> load_state_dict L model s)
      in fit_gpytorch_model L model r)"

text \<open>
  \<^verbatim>\<open>make_new_data(X, next_X, comps, q_comp)\<close>; \<open>noise\<close> is the script's global of
  that name, and \<^verbatim>\<open>X.shape[-2]\<close> is the number of points of \<open>X\<close>.
\<close>

definition make_new_data ::
  "('r, 'm, 's) library \<Rightarrow> real \<Rightarrow> real list list \<Rightarrow> real list list \<Rightarrow> comparisons \<Rightarrow> nat \<Rightarrow> 'r
     \<Rightarrow> error + ((real list list \<times> comparisons) \<times> 'r)" where
  "make_new_data L noise X next_X comps q_comp r =
     (let next_y = utility next_X in
      bindE (generate_comparisons L next_y q_comp noise False r) (\<lambda>(next_comps, r').
        let comps = comps @ map (\<lambda>(w, l). (w + length X, l + length X)) next_comps;
            X = X @ next_X
        in Inr ((X, comps), r')))"

section \<open>The Bayesian optimisation loop\<close>

text \<open>The literal constants of the script.\<close>

record config =
  NUM_TRIALS :: nat
  NUM_BATCHES :: nat
  dim' :: nat
  num_restarts :: nat
  num_raw_samples :: nat
  q :: nat
  q_comp :: nat
  noise :: real

definition script_config :: config where
  "script_config =
     \<lparr>NUM_TRIALS = 5, NUM_BATCHES = 10, dim' = 5, num_restarts = 3, num_raw_samples = 128,
      q = 3, q_comp = 3, noise = 1 / 10\<rparr>"

definition algos :: "string list" where
  "algos = [''qNEI'', ''rand'']"

text \<open>
  The variables of the script that the loop reads and writes: the dictionaries
  \<^verbatim>\<open>best_vals\<close>, \<^verbatim>\<open>data\<close> and \<^verbatim>\<open>models\<close>, the variable \<^verbatim>\<open>model\<close>,
  and the ambient random state.
\<close>

record ('r, 'm) state =
  best_vals :: "string \<rightharpoonup> real list list"
  data :: "string \<rightharpoonup> real list list \<times> comparisons"
  models :: "string \<rightharpoonup> 'm"
  model :: 'm
  rng :: 'r

text \<open>\<^verbatim>\<open>ys.max().item()\<close>; torch raises \<^verbatim>\<open>RuntimeError\<close> on an empty tensor.\<close>

definition tensor_max :: "real list \<Rightarrow> error + real" where
  "tensor_max ys = (case ys of [] \<Rightarrow> Inl RuntimeError | y # ys' \<Rightarrow> Inr (fold max ys' y))"

text \<open>\<^verbatim>\<open>best_vals[algo][-1].append(v)\<close>.\<close>

definition record_best :: "string \<Rightarrow> real \<Rightarrow> ('r, 'm) state \<Rightarrow> error + ('r, 'm) state" where
  "record_best algo v st =
     (case best_vals st algo of
        None \<Rightarrow> Inl KeyError
      | Some trajs \<Rightarrow>
          if trajs = [] then Inl IndexError
          else Inr (st\<lparr>best_vals := (best_vals st)(algo \<mapsto> butlast trajs @ [last trajs @ [v]])\<rparr>))"

text \<open>The body of the first \<^verbatim>\<open>for algo in algos\<close> loop of a trial (lines 204 to 210).\<close>

definition init_algo ::
  "('r, 'm, 's) library \<Rightarrow> real list list \<Rightarrow> comparisons \<Rightarrow> string \<Rightarrow> ('r, 'm) state
     \<Rightarrow> error + ('r, 'm) state" where
  "init_algo L init_X comparisons algo st =
     (case best_vals st algo of
        None \<Rightarrow> Inl KeyError
      | Some trajs \<Rightarrow>
          let st = st\<lparr>best_vals := (best_vals st)(algo \<mapsto> trajs @ [[]])\<rparr>;
              st = st\<lparr>data := (data st)(algo \<mapsto> (init_X, comparisons))\<rparr>;
              (m, r') = init_and_fit_model L init_X comparisons None (rng st);
              st = st\<lparr>models := (models st)(algo \<mapsto> m), rng := r'\<rparr>;
              st = st\<lparr>model := m\<rparr>
          in bindE (tensor_max (utility init_X)) (\<lambda>best_next_y. record_best algo best_next_y st))"

text \<open>
  The start of a trial (lines 193 to 210): fresh dictionaries, the initial data drawn
  once, the test data (drawn and not used by the loop), and the first loop over the
  variants.  \<^verbatim>\<open>bounds\<close> is \<^verbatim>\<open>torch.stack([torch.zeros(dim), torch.ones(dim)])\<close>.
\<close>

definition bounds :: "config \<Rightarrow> real list list" where
  "bounds cfg = [replicate (dim' cfg) 0, replicate (dim' cfg) 1]"

definition trial_init ::
  "('r, 'm, 's) library \<Rightarrow> config \<Rightarrow> ('r, 'm) state \<Rightarrow> error + ('r, 'm) state" where
  "trial_init L cfg st =
     (let st = st\<lparr>data := Map.empty, models := Map.empty\<rparr>;
          ((init_X, init_y), r1) = generate_data L (q cfg) (dim' cfg) (rng st)
      in bindE (generate_comparisons L init_y (q_comp cfg) (noise cfg) False r1) (\<lambda>(comparisons, r2).
           let ((test_X, test_y), r3) = generate_data L 1000 (dim' cfg) r2;
               st = st\<lparr>rng := r3\<rparr>
           in for_each (init_algo L init_X comparisons) algos st))"

text \<open>
  The body of the inner \<^verbatim>\<open>for algo in algos\<close> loop of a batch (lines 215 to 245).
  The acquisition function is built from the variable \<^verbatim>\<open>model\<close>.
\<close>

definition propose ::
  "('r, 'm, 's) library \<Rightarrow> config \<Rightarrow> string \<Rightarrow> ('r, 'm) state
     \<Rightarrow> error + (real list list \<times> ('r, 'm) state)" where
  "propose L cfg algo st =
     (if algo = ''qNEI'' then
        (case data st ''qNEI'' of
           None \<Rightarrow> Inl KeyError
         | Some (Xq, _) \<Rightarrow>
             let acq_func = \<lparr>acq_model = model st, X_baseline = Xq\<rparr>;
                 (next_X, r') = optimize_acqf L acq_func (bounds cfg) (q cfg)
                                  (num_restarts cfg) (num_raw_samples cfg) (rng st)
             in Inr (next_X, st\<lparr>rng := r'\<rparr>))
      else
        let ((next_X, _), r') = generate_data L (q cfg) (dim' cfg) (rng st)
        in Inr (next_X, st\<lparr>rng := r'\<rparr>))"

definition batch_algo ::
  "('r, 'm, 's) library \<Rightarrow> config \<Rightarrow> string \<Rightarrow> ('r, 'm) state \<Rightarrow> error + ('r, 'm) state" where
  "batch_algo L cfg algo st =
     bindE (propose L cfg algo st) (\<lambda>(next_X, st).
       case data st algo of
         None \<Rightarrow> Inl KeyError
       | Some (X, comps) \<Rightarrow>
           bindE (make_new_data L (noise cfg) X next_X comps (q_comp cfg) (rng st)) (\<lambda>((X, comps), r').
             let st = st\<lparr>data := (data st)(algo \<mapsto> (X, comps)), rng := r'\<rparr> in
             case models st algo of
               None \<Rightarrow> Inl KeyError
             | Some m \<Rightarrow>
                 let st = st\<lparr>model := m\<rparr>;
                     (m', r'') = init_and_fit_model L X comps (Some (state_dict L (model st))) (rng st);
                     st = st\<lparr>model := m', rng := r''\<rparr>;
                     st = st\<lparr>models := (models st)(algo \<mapsto> model st)\<rparr>
                 in bindE (tensor_max (utility X)) (\<lambda>max_val. record_best algo max_val st)))"

text \<open>One iteration of \<^verbatim>\<open>for j in range(1, NUM_BATCHES + 1)\<close>; the body does not read \<open>j\<close>.\<close>

definition batch ::
  "('r, 'm, 's) library \<Rightarrow> config \<Rightarrow> nat \<Rightarrow> ('r, 'm) state \<Rightarrow> error + ('r, 'm) state" where
  "batch L cfg j st = for_each (batch_algo L cfg) algos st"

text \<open>One iteration of \<^verbatim>\<open>for i in range(NUM_TRIALS)\<close>, and the whole loop, entered with
  empty trajectory lists for both variants, the value \<open>m0\<close> that the variable
  \<^verbatim>\<open>model\<close> holds from the earlier cell, and the random state \<open>r0\<close>.\<close>

definition trial ::
  "('r, 'm, 's) library \<Rightarrow> config \<Rightarrow> nat \<Rightarrow> ('r, 'm) state \<Rightarrow> error + ('r, 'm) state" where
  "trial L cfg i st =
     bindE (trial_init L cfg st) (for_each (batch L cfg) [1..<NUM_BATCHES cfg + 1])"

definition initial_state :: "'m \<Rightarrow> 'r \<Rightarrow> ('r, 'm) state" where
  "initial_state m0 r0 =
     \<lparr>best_vals = [''qNEI'' \<mapsto> [], ''rand'' \<mapsto> []], data = Map.empty, models = Map.empty,
      model = m0, rng = r0\<rparr>"

definition trial_loop ::
  "('r, 'm, 's) library \<Rightarrow> config \<Rightarrow> 'm \<Rightarrow> 'r \<Rightarrow> error + ('r, 'm) state" where
  "trial_loop L cfg m0 r0 = for_each (trial L cfg) [0..<NUM_TRIALS cfg] (initial_state m0 r0)"

text \<open>
  Observation points for the statements below: the state in which trial \<open>i\<close> starts,
  and the state of trial \<open>i\<close> after its first \<open>k\<close> batches.
\<close>

definition trial_start ::
  "('r, 'm, 's) library \<Rightarrow> config \<Rightarrow> 'm \<Rightarrow> 'r \<Rightarrow> nat \<Rightarrow> error + ('r, 'm) state" where
  "trial_start L cfg m0 r0 i = for_each (trial L cfg) [0..<i] (initial_state m0 r0)"

definition after_batches ::
  "('r, 'm, 's) library \<Rightarrow> config \<Rightarrow> 'm \<Rightarrow> 'r \<Rightarrow> nat \<Rightarrow> nat \<Rightarrow> error + ('r, 'm) state" where
  "after_batches L cfg m0 r0 i k =
     bindE (trial_start L cfg m0 r0 i) (\<lambda>st.
     bindE (trial_init L cfg st) (for_each (batch L cfg) [1..<k + 1]))"

section \<open>Reporting\<close>

text \<open>
  The trajectories of one variant are stacked into a matrix \<open>ys\<close> with one row per
  trial (\<^verbatim>\<open>np.vstack\<close>).  \<^verbatim>\<open>ys.mean(axis=0)\<close> and \<^verbatim>\<open>ys.std(axis=0)\<close> work column
  by column; numpy's \<^verbatim>\<open>std\<close> is, with its default \<^verbatim>\<open>ddof=0\<close>, the square root
  of the mean of the squared deviations from the mean.
\<close>

definition n_cols :: "real list list \<Rightarrow> nat" where
  "n_cols ys = (case ys of [] \<Rightarrow> 0 | row # _ \<Rightarrow> length row)"

definition column :: "real list list \<Rightarrow> nat \<Rightarrow> real list" where
  "column ys k = map (\<lambda>row. row ! k) ys"

definition np_mean :: "real list \<Rightarrow> real" where
  "np_mean xs = sum_list xs / real (length xs)"

definition np_std :: "real list \<Rightarrow> real" where
  "np_std xs = sqrt (np_mean (map (\<lambda>x. \<bar>x - np_mean xs\<bar>\<^sup>2) xs))"

definition mean_axis0 :: "real list list \<Rightarrow> real list" where
  "mean_axis0 ys = map (\<lambda>k. np_mean (column ys k)) [0..<n_cols ys]"

definition std_axis0 :: "real list list \<Rightarrow> real list" where
  "std_axis0 ys = map (\<lambda>k. np_std (column ys k)) [0..<n_cols ys]"

text \<open>\<^verbatim>\<open>ci(y)\<close>: \<^verbatim>\<open>1.96 * y.std(axis=0) / np.sqrt(y.shape[0])\<close>.\<close>

definition ci :: "real list list \<Rightarrow> real list" where
  "ci y = map (\<lambda>s. 196 / 100 * s / sqrt (real (length y))) (std_axis0 y)"

text \<open>\<^verbatim>\<open>optimal_val\<close>: \<^verbatim>\<open>utility(torch.tensor([[1] * dim])).item()\<close>.\<close>

definition optimal_val :: "config \<Rightarrow> real" where
  "optimal_val cfg = hd (utility [replicate (dim' cfg) 1])"

text \<open>
  The sample standard deviation as the specification words it, with the divisor
  \<open>n - 1\<close> of the usual sample estimate, for comparison with \<open>np_std\<close>.
\<close>

definition spec_sample_std :: "real list \<Rightarrow> real" where
  "spec_sample_std xs =
     sqrt (sum_list (map (\<lambda>x. (x - np_mean xs)\<^sup>2) xs) / (real (length xs) - 1))"

section \<open>A concrete stand-in for the libraries\<close>

text \<open>
  To run the definitions on concrete inputs the library calls need concrete values.
  In this stand-in the random state counts the calls of \<^verbatim>\<open>torch.rand\<close>, whose
  call number \<open>r\<close> (counted from zero) returns the coordinate \<open>r / (r + 1)\<close>
  everywhere; a sample without replacement is the first \<open>k\<close> indices; the normal
  deviates are all zero; a model is the data it was built from; and the optimiser
  proposes, \<open>q\<close> times, the most recent training point of the model it is given (the
  upper bound of the search space if that model has none), so that its proposal shows
  which model it was given.
\<close>

definition demo_library :: "(nat, real list list \<times> comparisons, unit) library" where
  "demo_library =
     \<lparr>torch_rand = (\<lambda>n d r. (replicate n (replicate d (real r / real (r + 1))), r + 1)),
      random_choice = (\<lambda>N k replace r. (if replace then replicate k 0 else [0..<k], r)),
      standard_normal = (\<lambda>k r. (replicate k 0, r)),
      PairwiseGP = (\<lambda>X c. (X, c)),
      load_state_dict = (\<lambda>m s. m),
      state_dict = (\<lambda>m. ()),
      fit_gpytorch_model = (\<lambda>m r. (m, r)),
      optimize_acqf = (\<lambda>acq bnds q nr ns r.
         (replicate q (case fst (acq_model acq) of [] \<Rightarrow> last bnds | x # xs \<Rightarrow> last (x # xs)), r))\<rparr>"

definition demo_config :: config where
  "demo_config =
     \<lparr>NUM_TRIALS = 1, NUM_BATCHES = 2, dim' = 1, num_restarts = 3, num_raw_samples = 128,
      q = 2, q_comp = 1, noise = 1 / 10\<rparr>"

section \<open>Conditions and observation points for the loop\<close>

text \<open>
  The constants must allow the comparison draws of every batch: at least two points per
  query, and no more comparisons per query than there are pairs among them.  The
  script's constants (\<open>q = 3\<close>, \<open>q_comp = 3\<close>) do.
\<close>

definition cfg_ok :: "config \<Rightarrow> bool" where
  "cfg_ok cfg \<longleftrightarrow> 2 \<le> q cfg \<and> q_comp cfg \<le> q cfg choose 2"

text \<open>Every index of a comparison array refers to a point of the collection.\<close>

definition idx_valid :: "real list list \<Rightarrow> comparisons \<Rightarrow> bool" where
  "idx_valid X comps \<longleftrightarrow> (\<forall>(w, l) \<in> set comps. w < length X \<and> l < length X)"

text \<open>
  What holds of the state inside a trial: both variants have a trajectory under way,
  a non-empty dataset with valid comparison indices, and a model.
\<close>

definition in_trial :: "('r, 'm) state \<Rightarrow> bool" where
  "in_trial st \<longleftrightarrow>
     (\<forall>a \<in> set algos. \<exists>trajs X c m.
        best_vals st a = Some trajs \<and> trajs \<noteq> [] \<and>
        data st a = Some (X, c) \<and> X \<noteq> [] \<and> idx_valid X c \<and> models st a = Some m)"

text \<open>
  The effect of one batch on every variant: \<open>q\<close> points and \<open>q_comp\<close> comparisons
  among them are appended to its dataset, and the maximum utility over the new dataset
  is appended to its trajectory.
\<close>

definition grows :: "config \<Rightarrow> ('r, 'm) state \<Rightarrow> ('r, 'm) state \<Rightarrow> bool" where
  "grows cfg st st' \<longleftrightarrow>
     (\<forall>a \<in> set algos. \<exists>X c nX nc trajs.
        data st a = Some (X, c) \<and> data st' a = Some (X @ nX, c @ nc) \<and>
        length nX = q cfg \<and> length nc = q_comp cfg \<and>
        (\<forall>(w, l) \<in> set nc. length X \<le> w \<and> w < length X + q cfg \<and>
                               length X \<le> l \<and> l < length X + q cfg) \<and>
        best_vals st a = Some trajs \<and>
        best_vals st' a = Some (butlast trajs @ [last trajs @ [Max (set (utility (X @ nX)))]]))"

text \<open>
  The dataset of a variant in trial \<open>i\<close> after \<open>k\<close> batches, the maximum true utility
  over it, and the trajectories of the first \<open>i\<close> trials built from these maxima.
\<close>

definition dataset_at ::
  "('r, 'm, 's) library \<Rightarrow> config \<Rightarrow> 'm \<Rightarrow> 'r \<Rightarrow> nat \<Rightarrow> nat \<Rightarrow> string
     \<Rightarrow> real list list \<times> comparisons" where
  "dataset_at L cfg m0 r0 i k a =
     (case after_batches L cfg m0 r0 i k of
        Inl e \<Rightarrow> ([], [])
      | Inr st \<Rightarrow> (case data st a of None \<Rightarrow> ([], []) | Some d \<Rightarrow> d))"

definition best_at ::
  "('r, 'm, 's) library \<Rightarrow> config \<Rightarrow> 'm \<Rightarrow> 'r \<Rightarrow> string \<Rightarrow> nat \<Rightarrow> nat \<Rightarrow> real" where
  "best_at L cfg m0 r0 a i k = Max (set (utility (fst (dataset_at L cfg m0 r0 i k a))))"

definition trajectories ::
  "('r, 'm, 's) library \<Rightarrow> config \<Rightarrow> 'm \<Rightarrow> 'r \<Rightarrow> string \<Rightarrow> nat \<Rightarrow> real list list" where
  "trajectories L cfg m0 r0 a i =
     map (\<lambda>i'. map (best_at L cfg m0 r0 a i') [0..<NUM_BATCHES cfg + 1]) [0..<i]"

text \<open>
  A point of the unit cube of dimension \<open>d\<close>, and the precondition that every dataset
  of a variant, in every trial and after every batch, holds only such points.
\<close>

definition in_unit_cube :: "nat \<Rightarrow> real list \<Rightarrow> bool" where
  "in_unit_cube d x \<longleftrightarrow> length x = d \<and> (\<forall>t \<in> set x. 0 \<le> t \<and> t \<le> 1)"

definition datasets_in_unit_cube ::
  "('r, 'm, 's) library \<Rightarrow> config \<Rightarrow> 'm \<Rightarrow> 'r \<Rightarrow> string \<Rightarrow> bool" where
  "datasets_in_unit_cube L cfg m0 r0 a \<longleftrightarrow>
     (\<forall>i < NUM_TRIALS cfg. \<forall>k \<le> NUM_BATCHES cfg.
        \<forall>x \<in> set (fst (dataset_at L cfg m0 r0 i k a)). in_unit_cube (dim' cfg) x)"

section \<open>The utility function\<close>

lemma utility_point_sum: "utility_point x = (\<Sum>i<length x. sqrt (real i + 1) * x ! i)"
proof -
  have "utility_point x = (\<Sum>i = 0..<length x. map2 (*) x (sqrt_weights (length x)) ! i)"
    unfolding utility_point_def by (simp add: sum_list_sum_nth sqrt_weights_def)
  also have "\<dots> = (\<Sum>i = 0..<length x. sqrt (real i + 1) * x ! i)"
    by (rule sum.cong) (simp_all add: sqrt_weights_def mult.commute)
  finally show ?thesis by (simp add: lessThan_atLeast0)
qed

lemma utility_point_one_based:
  "utility_point x = (\<Sum>i = 1..length x. sqrt (real i) * x ! (i - 1))"
proof -
  have "(\<Sum>i = 1..length x. sqrt (real i) * x ! (i - 1)) =
        (\<Sum>i = 0..<length x. sqrt (real (Suc i)) * x ! i)"
    by (simp add: sum.shift_bounds_cl_Suc_ivl atLeastLessThanSuc_atLeastAtMost[symmetric]
        sum.atLeast_Suc_lessThan_Suc_shift del: sum.op_ivl_Suc)
  then show ?thesis by (simp add: utility_point_sum lessThan_atLeast0 add.commute)
qed

lemma utility_point_update:
  assumes "k < length x"
  shows "utility_point (x[k := a]) = utility_point x + sqrt (real k + 1) * (a - x ! k)"
proof -
  have "utility_point (x[k := a]) =
        (\<Sum>i<length x. sqrt (real i + 1) * x ! i
            + (if i = k then sqrt (real k + 1) * (a - x ! k) else 0))"
    unfolding utility_point_sum using assms
    by (auto intro!: sum.cong simp: nth_list_update algebra_simps)
  also have "\<dots> = utility_point x + sqrt (real k + 1) * (a - x ! k)"
    using assms by (simp add: sum.distrib utility_point_sum)
  finally show ?thesis .
qed

lemma utility_point_strict_mono:
  assumes "k < length x" "a < b"
  shows "utility_point (x[k := a]) < utility_point (x[k := b])"
proof -
  have "0 < sqrt (real k + 1)" by simp
  with \<open>a < b\<close> have "sqrt (real k + 1) * (a - x ! k) < sqrt (real k + 1) * (b - x ! k)"
    by (simp add: mult_less_cancel_left_pos)
  then show ?thesis using assms(1) by (simp add: utility_point_update)
qed

text \<open>
  Claim C7.  On a batch \<open>X\<close>, \<open>utility\<close> returns one scalar per point, the sum over
  \<open>i = 1, \<dots>, d\<close> of \<open>\<surd>i\<close> times the \<open>i\<close>-th coordinate, and raising one coordinate
  of one point strictly raises that point's utility.  (The floating-point numbers of
  the script are idealised as reals; as a HOL function, \<open>utility\<close> is deterministic
  and has no effect.)
\<close>

theorem utility_weighted_sum_strictly_increasing:
  "utility X = map (\<lambda>x. \<Sum>i = 1..length x. sqrt (real i) * x ! (i - 1)) X \<and>
   (\<forall>j k a b. j < length X \<longrightarrow> k < length (X ! j) \<longrightarrow> a < b \<longrightarrow>
      utility (X[j := (X ! j)[k := a]]) ! j < utility (X[j := (X ! j)[k := b]]) ! j)"
proof (intro conjI allI impI)
  show "utility X = map (\<lambda>x. \<Sum>i = 1..length x. sqrt (real i) * x ! (i - 1)) X"
    unfolding utility_def by (rule map_cong) (simp_all add: utility_point_one_based)
next
  fix j k a b
  assume "j < length X" "k < length (X ! j)" "a < (b::real)"
  then show "utility (X[j := (X ! j)[k := a]]) ! j < utility (X[j := (X ! j)[k := b]]) ! j"
    by (simp add: utility_def utility_point_strict_mono)
qed

theorem utility_weighted_sum_strictly_increasing_witness:
  "utility [[1, 1], [0, 1]] = [1 + sqrt 2, sqrt 2] \<and>
   utility ([[1, 1], [0, 1]][1 := ([[1, 1], [0, 1]] ! 1)[0 := 0]]) ! 1
     < utility ([[1, 1], [0, 1]][1 := ([[1, 1], [0, 1]] ! 1)[0 := 1]]) ! 1"
proof -
  have "utility [[1, 1], [0, 1]] = [1 + sqrt 2, sqrt 2]"
    using utility_weighted_sum_strictly_increasing [of "[[1, 1], [0, 1]]"]
    by (simp add: numeral_2_eq_2)
  moreover have "utility ([[1, 1], [0, 1]][1 := ([[1, 1], [0, 1]] ! 1)[0 := 0]]) ! 1
     < utility ([[1, 1], [0, 1]][1 := ([[1, 1], [0, 1]] ! 1)[0 := 1]]) ! 1"
    using utility_weighted_sum_strictly_increasing
      [of "[[1, 1], [0, 1]]", THEN conjunct2, rule_format, of 1 0 0 1]
    by simp
  ultimately show ?thesis by simp
qed

section \<open>Comparison generation\<close>

lemma set_combinations2: "set (combinations2 n) = {(i, j). i < j \<and> j < n}"
proof -
  have "(a, b) \<in> set (combinations2 n)" if "a < b" "b < n" for a b
    using that by (auto simp: combinations2_def intro!: bexI[of _ a])
  then show ?thesis by (auto simp: combinations2_def)
qed

lemma distinct_concat_map:
  assumes "distinct xs" "\<And>x. x \<in> set xs \<Longrightarrow> distinct (f x)"
    "\<And>x y. x \<in> set xs \<Longrightarrow> y \<in> set xs \<Longrightarrow> x \<noteq> y \<Longrightarrow> set (f x) \<inter> set (f y) = {}"
  shows "distinct (concat (map f xs))"
  using assms by (induction xs) auto

lemma distinct_combinations2: "distinct (combinations2 n)"
  unfolding combinations2_def
  by (rule distinct_concat_map) (auto simp: distinct_map inj_on_def)

lemma length_combinations2: "length (combinations2 n) = n choose 2"
proof -
  have "length (combinations2 n) = (\<Sum>i<n. n - Suc i)"
    by (simp add: combinations2_def length_concat comp_def sum_list_sum_nth lessThan_atLeast0)
  also have "\<dots> = (\<Sum>i<n. i)"
    by (rule sum.nat_diff_reindex)
  also have "\<dots> = n choose 2"
    by (induction n) (auto simp: choose_two numeral_2_eq_2)
  finally show ?thesis .
qed

lemma combinations2_nonempty: "2 \<le> n \<Longrightarrow> combinations2 n \<noteq> []"
proof -
  assume "2 \<le> n"
  then have "(0, 1) \<in> set (combinations2 n)" by (simp add: set_combinations2)
  then show ?thesis by force
qed

lemma combinations2_small: "n < 2 \<Longrightarrow> combinations2 n = []"
proof -
  assume "n < 2"
  then have "set (combinations2 n) = {}" by (auto simp: set_combinations2)
  then show ?thesis by simp
qed

lemma generate_comparisons_Inr:
  assumes L: "choice_ok L" "normal_ok L"
    and n: "2 \<le> length y" and k: "n_comp \<le> length y choose 2"
    and idx: "random_choice L (length y choose 2) n_comp False r = (idx, r1)"
    and z0: "standard_normal L n_comp r1 = (z0, r2)"
    and z1: "standard_normal L n_comp r2 = (z1, r3)"
  shows "generate_comparisons L y n_comp s False r =
     Inr (map (\<lambda>k. let p = combinations2 (length y) ! (idx ! k)
                    in if y ! fst p + z0 ! k * s < y ! snd p + z1 ! k * s then (snd p, fst p) else p)
            [0..<n_comp], r3)"
    and "length idx = n_comp" and "\<forall>i\<in>set idx. i < length y choose 2" and "distinct idx"
proof -
  let ?N = "length y choose 2"
  have N: "?N \<noteq> 0" using n by simp
  from L(1) N k idx show i1: "length idx = n_comp" and i2: "\<forall>i\<in>set idx. i < ?N"
    and "distinct idx"
    unfolding choice_ok_def by (metis fst_conv)+
  from L(2) z0 z1 have lz: "length z0 = n_comp" "length z1 = n_comp"
    unfolding normal_ok_def by (metis fst_conv)+
  have ne: "combinations2 (length y) \<noteq> []"
    using n by (rule combinations2_nonempty)
  have c: "np_random_choice L ?N n_comp False r = Inr (idx, r1)"
    using N k idx by (simp add: np_random_choice_def)
  have t: "take_rows (combinations2 (length y)) idx = Inr (map (\<lambda>k. combinations2 (length y) ! k) idx)"
    using i2 by (simp add: take_rows_def length_combinations2)
  show "generate_comparisons L y n_comp s False r =
     Inr (map (\<lambda>k. let p = combinations2 (length y) ! (idx ! k)
                    in if y ! fst p + z0 ! k * s < y ! snd p + z1 ! k * s then (snd p, fst p) else p)
            [0..<n_comp], r3)"
    unfolding generate_comparisons_def Let_def length_combinations2 c bindE_def
    apply (simp add: t ne i1 z0 z1)
    apply (rule nth_equalityI)
     apply (simp add: i1 lz)
    apply (simp add: i1 lz)
    done
qed

text \<open>
  Claim C2.  Without replacement, asking for more comparisons than there are unordered
  index pairs, \<open>n_comp > C(n, 2)\<close>, makes \<open>generate_comparisons\<close> fail with
  \<^verbatim>\<open>ValueError\<close> (raised by \<^verbatim>\<open>np.random.choice\<close>); nothing truncated is returned.
\<close>

theorem generate_comparisons_too_many:
  "length y choose 2 < n_comp \<Longrightarrow> generate_comparisons L y n_comp s False r = Inl ValueError"
proof -
  assume "length y choose 2 < n_comp"
  then have "np_random_choice L (length (combinations2 (length y))) n_comp False r = Inl ValueError"
    unfolding length_combinations2 by (simp add: np_random_choice_def)
  then show ?thesis
    unfolding generate_comparisons_def Let_def by (simp add: bindE_def)
qed

theorem generate_comparisons_too_many_witness:
  "length [1, 2 :: real] choose 2 < 2 \<and>
   generate_comparisons demo_library [1, 2] 2 (1 / 10) False 0 = Inl ValueError"
proof -
  have h: "length [1, 2 :: real] choose 2 < 2" by (simp add: choose_two)
  show ?thesis using h generate_comparisons_too_many [OF h, of demo_library "1 / 10" 0] by simp
qed

text \<open>
  Comparison generation on at least two latent values.  Let \<open>y\<close> hold \<open>n \<ge> 2\<close>
  latent values and let
  \<open>n_comp \<le> C(n, 2)\<close>.  With \<open>idx\<close> the sample drawn by \<^verbatim>\<open>np.random.choice\<close> and
  \<open>z0\<close>, \<open>z1\<close> the two vectors of normal deviates, \<open>generate_comparisons\<close> without
  replacement returns \<open>n_comp\<close> rows of two different indices below \<open>n\<close>.  Row \<open>k\<close> is
  the drawn pair \<open>(a, b)\<close> or its flip, ordered so that the noisy score of the first
  index is at least that of the second, where the noisy score of \<open>a\<close> is
  \<open>y[a] + z0[k] * noise\<close> and that of \<open>b\<close> is \<open>y[b] + z1[k] * noise\<close>.  The rows
  come from \<open>n_comp\<close> distinct unordered pairs.
\<close>

theorem generate_comparisons_result:
  assumes "choice_ok L" and "normal_ok L"
    and "2 \<le> length y" and "n_comp \<le> length y choose 2"
  shows "let (idx, r1) = random_choice L (length y choose 2) n_comp False r;
             (z0, r2) = standard_normal L n_comp r1;
             (z1, r3) = standard_normal L n_comp r2
         in \<exists>cp. generate_comparisons L y n_comp s False r = Inr (cp, r3) \<and>
              length cp = n_comp \<and>
              (\<forall>(w, l) \<in> set cp. w < length y \<and> l < length y \<and> w \<noteq> l) \<and>
              (\<forall>k < n_comp. \<exists>a b. combinations2 (length y) ! (idx ! k) = (a, b) \<and>
                 (cp ! k = (a, b) \<and> y ! b + z1 ! k * s \<le> y ! a + z0 ! k * s \<or>
                  cp ! k = (b, a) \<and> y ! a + z0 ! k * s < y ! b + z1 ! k * s)) \<and>
              distinct (map (\<lambda>(w, l). {w, l}) cp)"
proof -
  obtain idx r1 where idx: "random_choice L (length y choose 2) n_comp False r = (idx, r1)"
    by (cases "random_choice L (length y choose 2) n_comp False r")
  obtain z0 r2 where z0: "standard_normal L n_comp r1 = (z0, r2)"
    by (cases "standard_normal L n_comp r1")
  obtain z1 r3 where z1: "standard_normal L n_comp r2 = (z1, r3)"
    by (cases "standard_normal L n_comp r2")
  define ap where "ap = combinations2 (length y)"
  define row where "row = (\<lambda>k. let p = ap ! (idx ! k)
                    in if y ! fst p + z0 ! k * s < y ! snd p + z1 ! k * s then (snd p, fst p) else p)"
  define cp where "cp = map row [0..<n_comp]"
  note g = generate_comparisons_Inr [OF assms idx z0 z1]
  have gen: "generate_comparisons L y n_comp s False r = Inr (cp, r3)"
    using g(1) [of s] by (simp add: cp_def row_def ap_def)
  have len: "length cp = n_comp" by (simp add: cp_def)
  have in_ap: "ap ! (idx ! k) \<in> set ap" if "k < n_comp" for k
    using that g(2,3) by (simp add: length_combinations2 ap_def)
  have ab: "fst (ap ! (idx ! k)) < snd (ap ! (idx ! k)) \<and> snd (ap ! (idx ! k)) < length y"
    if "k < n_comp" for k
    using in_ap [OF that] unfolding ap_def set_combinations2 by (auto simp: case_prod_beta)
  have row_ok: "fst (row k) < length y \<and> snd (row k) < length y \<and> fst (row k) \<noteq> snd (row k)"
    if "k < n_comp" for k
    using ab [OF that] by (auto simp: row_def Let_def)
  have 1: "\<forall>(w, l) \<in> set cp. w < length y \<and> l < length y \<and> w \<noteq> l"
    using row_ok by (auto simp: cp_def case_prod_beta)
  have 2: "\<forall>k < n_comp. \<exists>a b. combinations2 (length y) ! (idx ! k) = (a, b) \<and>
                 (cp ! k = (a, b) \<and> y ! b + z1 ! k * s \<le> y ! a + z0 ! k * s \<or>
                  cp ! k = (b, a) \<and> y ! a + z0 ! k * s < y ! b + z1 ! k * s)"
  proof (intro allI impI)
    fix k assume k: "k < n_comp"
    obtain a b where p: "ap ! (idx ! k) = (a, b)" by (cases "ap ! (idx ! k)")
    have "cp ! k = (if y ! a + z0 ! k * s < y ! b + z1 ! k * s then (b, a) else (a, b))"
      using k p by (simp add: cp_def row_def)
    with p show "\<exists>a b. combinations2 (length y) ! (idx ! k) = (a, b) \<and>
                 (cp ! k = (a, b) \<and> y ! b + z1 ! k * s \<le> y ! a + z0 ! k * s \<or>
                  cp ! k = (b, a) \<and> y ! a + z0 ! k * s < y ! b + z1 ! k * s)"
      unfolding ap_def by (cases "y ! a + z0 ! k * s < y ! b + z1 ! k * s") simp_all
  qed
  have unordered: "(\<lambda>(w, l). {w, l}) (row k) = (\<lambda>(w, l). {w, l}) (ap ! (idx ! k))" for k
    by (auto simp: row_def Let_def case_prod_beta)
  have "map (\<lambda>(w, l). {w, l}) cp = map (\<lambda>k. (\<lambda>(w, l). {w, l}) (ap ! (idx ! k))) [0..<n_comp]"
    using unordered by (simp add: cp_def comp_def)
  also have "\<dots> = map (\<lambda>(w, l). {w, l}) (map (\<lambda>i. ap ! i) idx)"
    using g(2) by (intro nth_equalityI) simp_all
  finally have eq: "map (\<lambda>(w, l). {w, l}) cp = map (\<lambda>(w, l). {w, l}) (map (\<lambda>i. ap ! i) idx)" .
  have d1: "distinct (map (\<lambda>i. ap ! i) idx)"
    using g(3,4) distinct_combinations2 [of "length y"]
    by (auto simp: distinct_map inj_on_def length_combinations2 nth_eq_iff_index_eq ap_def)
  have "inj_on (\<lambda>(w, l). {w, l}) (set (map (\<lambda>i. ap ! i) idx))"
  proof (rule inj_on_subset)
    show "inj_on (\<lambda>(w, l). {w, l}) {(i, j). i < (j::nat)}"
      by (auto simp: inj_on_def doubleton_eq_iff)
    have "set (map (\<lambda>i. ap ! i) idx) \<subseteq> set ap"
      using g(3) by (auto simp: length_combinations2 ap_def)
    then show "set (map (\<lambda>i. ap ! i) idx) \<subseteq> {(i, j). i < j}"
      unfolding ap_def set_combinations2 by auto
  qed
  with d1 have "distinct (map (\<lambda>(w, l). {w, l}) (map (\<lambda>i. ap ! i) idx))"
    by (rule distinct_map [THEN iffD2, OF conjI])
  then have 3: "distinct (map (\<lambda>(w, l). {w, l}) cp)"
    unfolding eq .
  show ?thesis
    unfolding idx z0 z1 Let_def prod.case
    using gen len 1 2 3 by (intro exI [of _ cp]) simp
qed

lemma demo_library_ok:
  "rand_ok demo_library" "choice_ok demo_library" "normal_ok demo_library" "acqf_ok demo_library"
  by (auto simp: rand_ok_def choice_ok_def normal_ok_def acqf_ok_def demo_library_def)

lemma combinations2_Suc:
  "combinations2 (Suc 0) = []"
  "combinations2 (Suc (Suc 0)) = [(0, 1)]"
  "combinations2 (Suc (Suc (Suc 0))) = [(0, 1), (0, 2), (1, 2)]"
  by (simp_all add: combinations2_def upt_rec)

lemma demo_sel:
  "random_choice demo_library N k False r = ([0..<k], r)"
  "standard_normal demo_library k r = (replicate k 0, r)"
  "torch_rand demo_library n d r = (replicate n (replicate d (real r / real (r + 1))), r + 1)"
  by (simp_all add: demo_library_def)

lemmas run_simps = bindE_def np_random_choice_def take_rows_def demo_sel combinations2_Suc upt_rec

theorem generate_comparisons_result_witness:
  "choice_ok demo_library \<and> normal_ok demo_library \<and> 2 \<le> length [1, 2, 3 :: real] \<and>
   2 \<le> length [1, 2, 3 :: real] choose 2 \<and>
   generate_comparisons demo_library [1, 2, 3] 2 (1 / 10) False 0 = Inr ([(1, 0), (2, 0)], 0)"
proof -
  have h: "2 \<le> length [1, 2, 3 :: real]" "2 \<le> length [1, 2, 3 :: real] choose 2"
    by (simp_all add: choose_two)
  have "generate_comparisons demo_library [1, 2, 3] 2 (1 / 10) False 0 = Inr ([(1, 0), (2, 0)], 0)"
    using generate_comparisons_result [OF demo_library_ok(2,3) h, where s = "1 / 10" and r = 0]
    by (simp add: generate_comparisons_def run_simps)
  with h demo_library_ok(2,3) show ?thesis by simp
qed

text \<open>
  Claim C6 promises an \<open>n_comp \<times> 2\<close> array for every \<open>n_comp \<le> C(n, 2)\<close>.  With a
  single latent value there is no pair, so \<open>n_comp = 0 \<le> C(1, 2)\<close> is such a call, and
  it raises \<^verbatim>\<open>IndexError\<close>; with two latent values the same request returns the
  empty array.
\<close>

theorem generate_comparisons_single_value_raises:
  "0 \<le> length [1 :: real] choose 2 \<and>
   generate_comparisons demo_library [1] 0 (1 / 10) False 0 = Inl IndexError \<and>
   generate_comparisons demo_library [1, 2] 0 (1 / 10) False 0 = Inr ([], 0)"
  by (simp add: generate_comparisons_def run_simps)

section \<open>The merge of new data\<close>

lemma generate_comparisons_shape:
  assumes "choice_ok L" and "normal_ok L"
    and "2 \<le> length y" and "n_comp \<le> length y choose 2"
  shows "\<exists>cp r'. generate_comparisons L y n_comp s False r = Inr (cp, r') \<and>
           length cp = n_comp \<and> (\<forall>(w, l) \<in> set cp. w < length y \<and> l < length y)"
proof -
  obtain idx r1 where idx: "random_choice L (length y choose 2) n_comp False r = (idx, r1)"
    by (cases "random_choice L (length y choose 2) n_comp False r")
  obtain z0 r2 where z0: "standard_normal L n_comp r1 = (z0, r2)"
    by (cases "standard_normal L n_comp r1")
  obtain z1 r3 where z1: "standard_normal L n_comp r2 = (z1, r3)"
    by (cases "standard_normal L n_comp r2")
  note g = generate_comparisons_Inr [OF assms idx z0 z1]
  define ap where "ap = combinations2 (length y)"
  define row where "row = (\<lambda>k. let p = ap ! (idx ! k)
                    in if y ! fst p + z0 ! k * s < y ! snd p + z1 ! k * s then (snd p, fst p) else p)"
  have gen: "generate_comparisons L y n_comp s False r = Inr (map row [0..<n_comp], r3)"
    using g(1) [of s] by (simp add: row_def ap_def)
  have row_ok: "fst (row k) < length y \<and> snd (row k) < length y" if "k < n_comp" for k
  proof -
    have "ap ! (idx ! k) \<in> set ap"
      using that g(2,3) by (simp add: length_combinations2 ap_def)
    then have "fst (ap ! (idx ! k)) < length y \<and> snd (ap ! (idx ! k)) < length y"
      unfolding ap_def set_combinations2 by (auto simp: case_prod_beta)
    then show ?thesis by (auto simp: row_def Let_def)
  qed
  show ?thesis
    unfolding gen using row_ok by (auto simp: case_prod_beta)
qed

lemma make_new_data_ok:
  assumes "choice_ok L" and "normal_ok L"
    and "2 \<le> length next_X" and "qc \<le> length next_X choose 2"
  shows "\<exists>new r'. make_new_data L s X next_X comps qc r = Inr ((X @ next_X, comps @ new), r') \<and>
           length new = qc \<and>
           (\<forall>(w, l) \<in> set new.
              length X \<le> w \<and> w < length X + length next_X \<and>
              length X \<le> l \<and> l < length X + length next_X)"
proof -
  have "2 \<le> length (utility next_X)" "qc \<le> length (utility next_X) choose 2"
    using assms(3,4) by (simp_all add: utility_def)
  from generate_comparisons_shape [OF assms(1,2) this, of s r]
  obtain cp r' where cp: "generate_comparisons L (utility next_X) qc s False r = Inr (cp, r')"
    "length cp = qc" "\<forall>(w, l) \<in> set cp. w < length next_X \<and> l < length next_X"
    by (auto simp: utility_def)
  have "make_new_data L s X next_X comps qc r =
          Inr ((X @ next_X, comps @ map (\<lambda>(w, l). (w + length X, l + length X)) cp), r')"
    by (simp add: make_new_data_def cp(1) bindE_def)
  moreover have "\<forall>(w, l) \<in> set (map (\<lambda>(w, l). (w + length X, l + length X)) cp).
              length X \<le> w \<and> w < length X + length next_X \<and>
              length X \<le> l \<and> l < length X + length next_X"
    using cp(3) by auto
  ultimately show ?thesis using cp(2) by simp
qed

lemma make_new_data_too_many:
  assumes "length next_X choose 2 < qc"
  shows "make_new_data L s X next_X comps qc r = Inl ValueError"
proof -
  have "np_random_choice L (length (combinations2 (length (utility next_X)))) qc False r
          = Inl ValueError"
    using assms unfolding length_combinations2 by (simp add: np_random_choice_def utility_def)
  then have "generate_comparisons L (utility next_X) qc s False r = Inl ValueError"
    unfolding generate_comparisons_def Let_def by (simp add: bindE_def)
  then show ?thesis by (simp add: make_new_data_def bindE_def)
qed

text \<open>
  Claim C3, as amended.  When the batch \<open>next_X\<close> holds \<open>q \<ge> 2\<close> points and
  \<open>q_comp \<le> C(q, 2)\<close>, \<open>make_new_data\<close> returns the \<open>n\<close> old points followed by the
  \<open>q\<close> new ones, \<open>n + q\<close> points in all, and the old comparisons followed by
  \<open>q_comp\<close> new rows whose two indices lie in \<open>[n, n + q)\<close>.  When
  \<open>q_comp > C(q, 2)\<close> the call raises the \<^verbatim>\<open>ValueError\<close> of the comparison draw
  and returns nothing.
\<close>

theorem make_new_data_appends:
  "(choice_ok L \<longrightarrow> normal_ok L \<longrightarrow> 2 \<le> length next_X \<longrightarrow> qc \<le> length next_X choose 2 \<longrightarrow>
      (\<exists>X' comps' r'. make_new_data L s X next_X comps qc r = Inr ((X', comps'), r') \<and>
         length X' = length X + length next_X \<and> X' = X @ next_X \<and>
         length comps' = length comps + qc \<and> take (length comps) comps' = comps \<and>
         (\<forall>(w, l) \<in> set (drop (length comps) comps').
            length X \<le> w \<and> w < length X + length next_X \<and>
            length X \<le> l \<and> l < length X + length next_X))) \<and>
   (length next_X choose 2 < qc \<longrightarrow>
      make_new_data L s X next_X comps qc r = Inl ValueError)"
proof (intro conjI impI)
  assume h: "choice_ok L" "normal_ok L" "2 \<le> length next_X" "qc \<le> length next_X choose 2"
  from make_new_data_ok [OF h, of s X comps r]
  obtain new r' where
    "make_new_data L s X next_X comps qc r = Inr ((X @ next_X, comps @ new), r')"
    "length new = qc"
    "\<forall>(w, l) \<in> set new. length X \<le> w \<and> w < length X + length next_X \<and>
                          length X \<le> l \<and> l < length X + length next_X"
    by blast
  then show "\<exists>X' comps' r'. make_new_data L s X next_X comps qc r = Inr ((X', comps'), r') \<and>
         length X' = length X + length next_X \<and> X' = X @ next_X \<and>
         length comps' = length comps + qc \<and> take (length comps) comps' = comps \<and>
         (\<forall>(w, l) \<in> set (drop (length comps) comps').
            length X \<le> w \<and> w < length X + length next_X \<and>
            length X \<le> l \<and> l < length X + length next_X)"
    by simp
next
  assume "length next_X choose 2 < qc"
  then show "make_new_data L s X next_X comps qc r = Inl ValueError"
    by (rule make_new_data_too_many)
qed

theorem make_new_data_appends_witness:
  "choice_ok demo_library \<and> normal_ok demo_library \<and> 2 \<le> length [[0], [1 :: real]] \<and>
   1 \<le> length [[0], [1 :: real]] choose 2 \<and>
   make_new_data demo_library (1 / 10) [[1 / 2], [1 / 4]] [[0], [1]] [(0, 1)] 1 0
     = Inr (([[1 / 2], [1 / 4], [0], [1]], [(0, 1), (3, 2)]), 0) \<and>
   length [[0], [1 :: real]] choose 2 < 3 \<and>
   make_new_data demo_library (1 / 10) [[1 / 2], [1 / 4]] [[0], [1]] [(0, 1)] 3 0
     = Inl ValueError"
proof -
  have h: "2 \<le> length [[0], [1 :: real]]" "1 \<le> length [[0], [1 :: real]] choose 2"
    and h': "length [[0], [1 :: real]] choose 2 < 3"
    by (simp_all add: choose_two)
  note t = make_new_data_appends [where L = demo_library and s = "1 / 10"
      and X = "[[1 / 2], [1 / 4]]" and next_X = "[[0], [1]]" and comps = "[(0, 1)]" and r = 0]
  have "make_new_data demo_library (1 / 10) [[1 / 2], [1 / 4]] [[0], [1]] [(0, 1)] 1 0
     = Inr (([[1 / 2], [1 / 4], [0], [1]], [(0, 1), (3, 2)]), 0)"
    using t [of 1] demo_library_ok(2,3) h
    by (simp add: make_new_data_def generate_comparisons_def utility_def utility_point_def
        sqrt_weights_def run_simps)
  moreover have "make_new_data demo_library (1 / 10) [[1 / 2], [1 / 4]] [[0], [1]] [(0, 1)] 3 0
     = Inl ValueError"
    using t [of 3] h' by blast
  ultimately show ?thesis
    using h h' demo_library_ok(2,3) by simp
qed

text \<open>
  A batch of two points has one pair, so asking for two comparisons among them raises
  \<^verbatim>\<open>ValueError\<close>: the call returns nothing.
\<close>

theorem make_new_data_too_many_counterexample:
  "make_new_data demo_library (1 / 10) [[1 / 2], [1 / 4]] [[0], [1]] [(0, 1)] 2 0 = Inl ValueError"
  by (simp add: make_new_data_def generate_comparisons_def utility_def run_simps)

section \<open>The confidence half-width of the report\<close>

lemma np_std_sum:
  "np_std xs = sqrt ((\<Sum>x\<leftarrow>xs. (x - np_mean xs)\<^sup>2) / real (length xs))"
  by (simp add: np_std_def np_mean_def)

lemma np_std_spec_sample_std:
  assumes "2 \<le> length xs"
  shows "np_std xs = sqrt ((real (length xs) - 1) / real (length xs)) * spec_sample_std xs"
proof -
  let ?S = "\<Sum>x\<leftarrow>xs. (x - np_mean xs)\<^sup>2"
  let ?n = "real (length xs)"
  have n: "?n - 1 > 0" "?n > 0" using assms by auto
  have "sqrt ((?n - 1) / ?n) * spec_sample_std xs
          = sqrt ((?n - 1) / ?n) * sqrt (?S / (?n - 1))"
    by (simp only: spec_sample_std_def)
  also have "\<dots> = sqrt (((?n - 1) / ?n) * (?S / (?n - 1)))"
    by (simp only: real_sqrt_mult)
  also have "((?n - 1) / ?n) * (?S / (?n - 1)) = ?S / ?n"
    using n by (simp add: field_simps)
  finally show ?thesis by (simp only: np_std_sum)
qed

text \<open>
  Claim C9, as amended.  For a trajectory matrix \<open>ys\<close> with one row per trial, the
  report's per-step mean is the sum of the step's values over the number of trials,
  and the half-width \<open>ci\<close> is \<open>1.96\<close> times the standard deviation with divisor
  \<open>n\<close> (numpy's default, \<^verbatim>\<open>ddof=0\<close>) over \<open>\<surd>n\<close>, where \<open>n\<close> is the number of
  trials.  For \<open>n \<ge> 2\<close> that is \<open>\<surd>((n - 1) / n)\<close> times the half-width built from
  the sample standard deviation with divisor \<open>n - 1\<close>.
\<close>

theorem ci_population_std:
  "mean_axis0 ys = map (\<lambda>k. (\<Sum>row\<leftarrow>ys. row ! k) / real (length ys)) [0..<n_cols ys] \<and>
   ci ys = map (\<lambda>k. 196 / 100
                  * sqrt ((\<Sum>row\<leftarrow>ys. (row ! k - mean_axis0 ys ! k)\<^sup>2) / real (length ys))
                  / sqrt (real (length ys))) [0..<n_cols ys] \<and>
   (2 \<le> length ys \<longrightarrow>
      ci ys = map (\<lambda>k. sqrt ((real (length ys) - 1) / real (length ys))
                      * (196 / 100 * spec_sample_std (column ys k) / sqrt (real (length ys))))
                [0..<n_cols ys])"
proof (intro conjI impI)
  show m: "mean_axis0 ys = map (\<lambda>k. (\<Sum>row\<leftarrow>ys. row ! k) / real (length ys)) [0..<n_cols ys]"
    by (simp add: mean_axis0_def np_mean_def column_def comp_def)
  show "ci ys = map (\<lambda>k. 196 / 100
                  * sqrt ((\<Sum>row\<leftarrow>ys. (row ! k - mean_axis0 ys ! k)\<^sup>2) / real (length ys))
                  / sqrt (real (length ys))) [0..<n_cols ys]"
    by (simp add: ci_def std_axis0_def np_std_sum mean_axis0_def column_def comp_def)
  assume "2 \<le> length ys"
  then have "np_std (column ys k)
      = sqrt ((real (length ys) - 1) / real (length ys)) * spec_sample_std (column ys k)" for k
    using np_std_spec_sample_std [of "column ys k"] by (simp add: column_def)
  then show "ci ys = map (\<lambda>k. sqrt ((real (length ys) - 1) / real (length ys))
                      * (196 / 100 * spec_sample_std (column ys k) / sqrt (real (length ys))))
                [0..<n_cols ys]"
    by (simp add: ci_def std_axis0_def)
qed

lemma col_simps:
  "n_cols [[0], [2]] = 1" "column [[0], [2]] 0 = [0, 2]" "np_mean [0, 2] = 1"
  by (simp_all add: n_cols_def column_def np_mean_def)

lemma np_std_0_2: "np_std [0, 2] = 1"
  by (simp add: np_std_def np_mean_def)

lemma spec_sample_std_0_2: "spec_sample_std [0, 2] = sqrt 2"
  by (simp add: spec_sample_std_def np_mean_def)

theorem ci_population_std_witness:
  "2 \<le> length [[0], [2 :: real]] \<and> mean_axis0 [[0], [2]] = [1] \<and>
   ci [[0], [2]] = [196 / 100 / sqrt 2] \<and>
   ci [[0], [2]] = [sqrt (1 / 2) * (196 / 100 * spec_sample_std [0, 2] / sqrt 2)]"
proof -
  have "mean_axis0 [[0], [2]] = [1]"
    by (simp add: mean_axis0_def col_simps)
  moreover have "ci [[0], [2]] = [196 / 100 / sqrt 2]"
    by (simp add: ci_def std_axis0_def col_simps np_std_0_2)
  moreover have "ci [[0], [2]] = [sqrt (1 / 2) * (196 / 100 * spec_sample_std [0, 2] / sqrt 2)]"
    using ci_population_std [of "[[0], [2]]", THEN conjunct2, THEN conjunct2]
    by (simp add: col_simps)
  ultimately show ?thesis by simp
qed

text \<open>
  Two trials with the values \<open>0\<close> and \<open>2\<close> at a step: the script's half-width is
  \<open>1.96 / \<surd>2\<close>, while the sample standard deviation \<open>\<surd>2\<close> would give \<open>1.96\<close>.
\<close>

theorem ci_sample_std_counterexample:
  "ci [[0], [2]] \<noteq>
   map (\<lambda>k. 196 / 100 * spec_sample_std (column [[0], [2]] k) / sqrt (real (length [[0], [2 :: real]])))
     [0..<n_cols [[0], [2]]]"
  by (simp add: ci_def std_axis0_def col_simps np_std_0_2 spec_sample_std_0_2 divide_eq_eq)

section \<open>The optimum\<close>

lemma utility_point_le_ones:
  assumes "\<forall>t \<in> set x. t \<le> 1"
  shows "utility_point x \<le> utility_point (replicate (length x) 1)"
proof -
  have "(\<Sum>i<length x. sqrt (real i + 1) * x ! i) \<le> (\<Sum>i<length x. sqrt (real i + 1) * 1)"
  proof (rule sum_mono)
    fix i assume "i \<in> {..<length x}"
    then have "x ! i \<le> 1" using assms by simp
    then show "sqrt (real i + 1) * x ! i \<le> sqrt (real i + 1) * 1"
      by (intro mult_left_mono) simp_all
  qed
  then show ?thesis by (simp add: utility_point_sum)
qed

lemma utility_point_ones: "utility_point (replicate d 1) = (\<Sum>i = 1..d. sqrt (real i))"
  by (simp add: utility_point_sum lessThan_atLeast0 add.commute
      sum.shift_bounds_cl_Suc_ivl atLeastLessThanSuc_atLeastAtMost [symmetric]
      sum.atLeast_Suc_lessThan_Suc_shift del: sum.op_ivl_Suc)

lemma optimal_val_utility_point: "optimal_val cfg = utility_point (replicate (dim' cfg) 1)"
  by (simp add: optimal_val_def utility_def)

lemma sqrt_bounds:
  "141421 / 100000 < sqrt 2" "sqrt 2 < 141422 / 100000"
  "173205 / 100000 < sqrt 3" "sqrt 3 < 173206 / 100000"
  "223606 / 100000 < sqrt 5" "sqrt 5 < 223607 / 100000"
  by (rule real_less_rsqrt real_less_lsqrt; simp add: power2_eq_square)+

lemma optimal_val_script: "optimal_val script_config = 1 + sqrt 2 + sqrt 3 + 2 + sqrt 5"
proof -
  have "(\<Sum>i = 1..5. sqrt (real i)) = 1 + sqrt 2 + sqrt 3 + sqrt 4 + sqrt 5"
    by (simp add: numeral_eq_Suc)
  moreover have "sqrt 4 = 2"
    using real_sqrt_abs [of 2] by simp
  ultimately show ?thesis
    by (simp add: optimal_val_utility_point utility_point_ones script_config_def)
qed

lemma optimal_val_script_bounds:
  "83823 / 10000 < optimal_val script_config" "optimal_val script_config < 83824 / 10000"
  unfolding optimal_val_script using sqrt_bounds by linarith+

section \<open>The loop, step by step\<close>

lemma bindE_simps [simp]:
  "bindE (Inr x) f = f x" "bindE (Inl e) f = Inl e"
  by (simp_all add: bindE_def)

lemma bindE_cong: "m = m' \<Longrightarrow> (\<And>x. m' = Inr x \<Longrightarrow> f x = g x) \<Longrightarrow> bindE m f = bindE m' g"
  by (cases m') simp_all

lemma for_each_append:
  "for_each body (xs @ ys) s = bindE (for_each body xs s) (for_each body ys)"
  by (induction xs arbitrary: s) (auto split: sum.splits)

lemma tensor_max_Max: "ys \<noteq> [] \<Longrightarrow> tensor_max ys = Inr (Max (set ys))"
  by (cases ys) (simp_all add: tensor_max_def Max.set_eq_fold [symmetric])

lemma generate_data_eq:
  assumes "rand_ok L"
  shows "\<exists>X r'. generate_data L n d r = ((X, utility X), r') \<and> length X = n"
proof -
  obtain X r' where "torch_rand L n d r = (X, r')" by (cases "torch_rand L n d r")
  moreover from this assms have "length X = n" unfolding rand_ok_def by (metis fst_conv)
  ultimately show ?thesis by (simp add: generate_data_def)
qed

lemma propose_ok:
  assumes L: "rand_ok L" "acqf_ok L" and d: "data st ''qNEI'' = Some (Xq, cq)"
  shows "\<exists>nX r'. propose L cfg a st = Inr (nX, st\<lparr>rng := r'\<rparr>) \<and> length nX = q cfg"
proof (cases "a = ''qNEI''")
  case True
  obtain nX r' where o: "optimize_acqf L \<lparr>acq_model = model st, X_baseline = Xq\<rparr> (bounds cfg) (q cfg)
      (num_restarts cfg) (num_raw_samples cfg) (rng st) = (nX, r')"
    by (cases "optimize_acqf L \<lparr>acq_model = model st, X_baseline = Xq\<rparr> (bounds cfg) (q cfg)
      (num_restarts cfg) (num_raw_samples cfg) (rng st)")
  with L(2) have "length nX = q cfg" unfolding acqf_ok_def by (metis fst_conv)
  with True o d show ?thesis by (auto simp: propose_def)
next
  case False
  from generate_data_eq [OF L(1), of "q cfg" "dim' cfg" "rng st"]
  obtain X r' where "generate_data L (q cfg) (dim' cfg) (rng st) = ((X, utility X), r')"
    "length X = q cfg" by blast
  with False show ?thesis by (auto simp: propose_def)
qed

lemma batch_algo_step:
  assumes L: "rand_ok L" "choice_ok L" "normal_ok L" "acqf_ok L" and cfg: "cfg_ok cfg"
    and dq: "data st ''qNEI'' = Some (Xq, cq)"
    and bv: "best_vals st a = Some trajs" "trajs \<noteq> []"
    and d: "data st a = Some (X, c)"
    and m: "models st a = Some m"
  shows "\<exists>nX nc m' r'.
    batch_algo L cfg a st =
      Inr (st\<lparr>data := (data st)(a \<mapsto> (X @ nX, c @ nc)), rng := r', model := m',
              models := (models st)(a \<mapsto> m'),
              best_vals := (best_vals st)(a \<mapsto> butlast trajs @ [last trajs @ [Max (set (utility (X @ nX)))]])\<rparr>) \<and>
    length nX = q cfg \<and> length nc = q_comp cfg \<and>
    (\<forall>(w, l) \<in> set nc. length X \<le> w \<and> w < length X + q cfg \<and> length X \<le> l \<and> l < length X + q cfg)"
proof -
  from propose_ok [OF L(1,4) dq, of cfg a]
  obtain nX r1 where p: "propose L cfg a st = Inr (nX, st\<lparr>rng := r1\<rparr>)" and nX: "length nX = q cfg"
    by blast
  have q2: "2 \<le> length nX" "q_comp cfg \<le> length nX choose 2"
    using cfg nX by (simp_all add: cfg_ok_def)
  from make_new_data_ok [OF L(2,3) q2, of "noise cfg" X c r1]
  obtain nc r2 where mk: "make_new_data L (noise cfg) X nX c (q_comp cfg) r1 = Inr ((X @ nX, c @ nc), r2)"
    and nc: "length nc = q_comp cfg"
      "\<forall>(w, l) \<in> set nc. length X \<le> w \<and> w < length X + length nX \<and> length X \<le> l \<and> l < length X + length nX"
    by blast
  obtain m' r3 where f: "init_and_fit_model L (X @ nX) (c @ nc) (Some (state_dict L m)) r2 = (m', r3)"
    by (cases "init_and_fit_model L (X @ nX) (c @ nc) (Some (state_dict L m)) r2")
  have ne: "utility (X @ nX) \<noteq> []" using q2(1) by (auto simp: utility_def)
  have "batch_algo L cfg a st =
      Inr (st\<lparr>data := (data st)(a \<mapsto> (X @ nX, c @ nc)), rng := r3, model := m',
              models := (models st)(a \<mapsto> m'),
              best_vals := (best_vals st)(a \<mapsto> butlast trajs @ [last trajs @ [Max (set (utility (X @ nX)))]])\<rparr>)"
    by (simp add: batch_algo_def p d mk m f tensor_max_Max [OF ne] record_best_def bv)
  with nX nc show ?thesis by auto
qed

lemma algos_cases: "a \<in> set algos \<longleftrightarrow> a = ''qNEI'' \<or> a = ''rand''"
  by (auto simp: algos_def)

lemma idx_valid_append:
  assumes "idx_valid X c"
    and "\<forall>(w, l) \<in> set nc. length X \<le> w \<and> w < length X + n \<and> length X \<le> l \<and> l < length X + n"
    and "length nX = n"
  shows "idx_valid (X @ nX) (c @ nc)"
  using assms unfolding idx_valid_def by fastforce

lemma batch_step:
  assumes L: "rand_ok L" "choice_ok L" "normal_ok L" "acqf_ok L" and cfg: "cfg_ok cfg"
    and st: "in_trial st"
  shows "\<exists>st'. batch L cfg j st = Inr st' \<and> in_trial st' \<and> grows cfg st st' \<and>
           models st' ''rand'' = Some (model st')"
proof -
  from st obtain Tq Xq cq mq Tr Xr cr mr where
    q: "best_vals st ''qNEI'' = Some Tq" "Tq \<noteq> []" "data st ''qNEI'' = Some (Xq, cq)"
       "Xq \<noteq> []" "idx_valid Xq cq" "models st ''qNEI'' = Some mq" and
    r: "best_vals st ''rand'' = Some Tr" "Tr \<noteq> []" "data st ''rand'' = Some (Xr, cr)"
       "Xr \<noteq> []" "idx_valid Xr cr" "models st ''rand'' = Some mr"
    unfolding in_trial_def algos_def by auto
  from batch_algo_step [OF L cfg q(3) q(1,2,3,6)]
  obtain nXq ncq mq' r1 where 1: "batch_algo L cfg ''qNEI'' st =
      Inr (st\<lparr>data := (data st)(''qNEI'' \<mapsto> (Xq @ nXq, cq @ ncq)), rng := r1, model := mq',
              models := (models st)(''qNEI'' \<mapsto> mq'),
              best_vals := (best_vals st)(''qNEI'' \<mapsto> butlast Tq @ [last Tq @ [Max (set (utility (Xq @ nXq)))]])\<rparr>)"
    and n1: "length nXq = q cfg" "length ncq = q_comp cfg"
      "\<forall>(w, l) \<in> set ncq. length Xq \<le> w \<and> w < length Xq + q cfg \<and> length Xq \<le> l \<and> l < length Xq + q cfg"
    by blast
  define st1 where "st1 = st\<lparr>data := (data st)(''qNEI'' \<mapsto> (Xq @ nXq, cq @ ncq)), rng := r1, model := mq',
              models := (models st)(''qNEI'' \<mapsto> mq'),
              best_vals := (best_vals st)(''qNEI'' \<mapsto> butlast Tq @ [last Tq @ [Max (set (utility (Xq @ nXq)))]])\<rparr>"
  have s1: "data st1 ''qNEI'' = Some (Xq @ nXq, cq @ ncq)" "best_vals st1 ''rand'' = Some Tr"
    "data st1 ''rand'' = Some (Xr, cr)" "models st1 ''rand'' = Some mr"
    using r by (simp_all add: st1_def)
  from batch_algo_step [OF L cfg s1(1) s1(2) r(2) s1(3,4)]
  obtain nXr ncr mr' r2 where 2: "batch_algo L cfg ''rand'' st1 =
      Inr (st1\<lparr>data := (data st1)(''rand'' \<mapsto> (Xr @ nXr, cr @ ncr)), rng := r2, model := mr',
              models := (models st1)(''rand'' \<mapsto> mr'),
              best_vals := (best_vals st1)(''rand'' \<mapsto> butlast Tr @ [last Tr @ [Max (set (utility (Xr @ nXr)))]])\<rparr>)"
    and n2: "length nXr = q cfg" "length ncr = q_comp cfg"
      "\<forall>(w, l) \<in> set ncr. length Xr \<le> w \<and> w < length Xr + q cfg \<and> length Xr \<le> l \<and> l < length Xr + q cfg"
    by blast
  define st2 where "st2 = st1\<lparr>data := (data st1)(''rand'' \<mapsto> (Xr @ nXr, cr @ ncr)), rng := r2, model := mr',
              models := (models st1)(''rand'' \<mapsto> mr'),
              best_vals := (best_vals st1)(''rand'' \<mapsto> butlast Tr @ [last Tr @ [Max (set (utility (Xr @ nXr)))]])\<rparr>"
  have b: "batch L cfg j st = Inr st2"
    using 1 2 by (simp add: batch_def algos_def st1_def [symmetric] st2_def [symmetric])
  have vq: "idx_valid (Xq @ nXq) (cq @ ncq)" by (rule idx_valid_append [OF q(5) n1(3) n1(1)])
  have vr: "idx_valid (Xr @ nXr) (cr @ ncr)" by (rule idx_valid_append [OF r(5) n2(3) n2(1)])
  have f: "data st2 ''qNEI'' = Some (Xq @ nXq, cq @ ncq)" "data st2 ''rand'' = Some (Xr @ nXr, cr @ ncr)"
    "best_vals st2 ''qNEI'' = Some (butlast Tq @ [last Tq @ [Max (set (utility (Xq @ nXq)))]])"
    "best_vals st2 ''rand'' = Some (butlast Tr @ [last Tr @ [Max (set (utility (Xr @ nXr)))]])"
    "models st2 ''qNEI'' = Some mq'" "models st2 ''rand'' = Some mr'" "model st2 = mr'"
    by (simp_all add: st2_def st1_def)
  have "in_trial st2"
    unfolding in_trial_def algos_def using f vq vr q(4) r(4) by simp
  moreover have "grows cfg st st2"
    unfolding grows_def algos_def using f q r n1 n2 by simp
  ultimately show ?thesis using b f(6,7) by simp
qed

lemma init_algo_step:
  assumes "best_vals st a = Some trajs" and "X \<noteq> []"
  shows "\<exists>m r'. init_algo L X c a st =
           Inr (st\<lparr>best_vals := (best_vals st)(a \<mapsto> trajs @ [[Max (set (utility X))]]),
                   data := (data st)(a \<mapsto> (X, c)), models := (models st)(a \<mapsto> m),
                   rng := r', model := m\<rparr>)"
proof -
  obtain m r' where f: "init_and_fit_model L X c None (rng st) = (m, r')"
    by (cases "init_and_fit_model L X c None (rng st)")
  have ne: "utility X \<noteq> []" using assms(2) by (simp add: utility_def)
  show ?thesis
    by (intro exI [of _ m] exI [of _ r'])
      (simp add: init_algo_def assms(1) f tensor_max_Max [OF ne] record_best_def)
qed

lemma trial_init_ok:
  assumes L: "rand_ok L" "choice_ok L" "normal_ok L" and cfg: "cfg_ok cfg"
    and keys: "best_vals st ''qNEI'' = Some Tq" "best_vals st ''rand'' = Some Tr"
  shows "\<exists>st' X c r1 r2 mq mr.
           generate_data L (q cfg) (dim' cfg) (rng st) = ((X, utility X), r1) \<and>
           generate_comparisons L (utility X) (q_comp cfg) (noise cfg) False r1 = Inr (c, r2) \<and>
           trial_init L cfg st = Inr st' \<and>
           length X = q cfg \<and> length c = q_comp cfg \<and> idx_valid X c \<and>
           data st' ''qNEI'' = Some (X, c) \<and> data st' ''rand'' = Some (X, c) \<and>
           best_vals st' ''qNEI'' = Some (Tq @ [[Max (set (utility X))]]) \<and>
           best_vals st' ''rand'' = Some (Tr @ [[Max (set (utility X))]]) \<and>
           models st' ''qNEI'' = Some mq \<and> models st' ''rand'' = Some mr \<and> model st' = mr"
proof -
  from generate_data_eq [OF L(1), of "q cfg" "dim' cfg" "rng st"]
  obtain X r1 where gd: "generate_data L (q cfg) (dim' cfg) (rng st) = ((X, utility X), r1)"
    and lX: "length X = q cfg" by blast
  have y: "2 \<le> length (utility X)" "q_comp cfg \<le> length (utility X) choose 2"
    using cfg lX by (simp_all add: cfg_ok_def utility_def)
  from generate_comparisons_shape [OF L(2,3) y, of "noise cfg" r1]
  obtain c r2 where gc: "generate_comparisons L (utility X) (q_comp cfg) (noise cfg) False r1 = Inr (c, r2)"
    and lc: "length c = q_comp cfg" and v: "idx_valid X c"
    by (auto simp: idx_valid_def utility_def)
  from generate_data_eq [OF L(1), of 1000 "dim' cfg" r2]
  obtain tX r3 where gt: "generate_data L 1000 (dim' cfg) r2 = ((tX, utility tX), r3)" by blast
  have ne: "X \<noteq> []" using lX cfg by (auto simp: cfg_ok_def)
  define s0 where "s0 = st\<lparr>data := Map.empty, models := Map.empty, rng := r3\<rparr>"
  have k0: "best_vals s0 ''qNEI'' = Some Tq" using keys by (simp add: s0_def)
  from init_algo_step [OF k0 ne, of L c]
  obtain mq r4 where 1: "init_algo L X c ''qNEI'' s0 =
           Inr (s0\<lparr>best_vals := (best_vals s0)(''qNEI'' \<mapsto> Tq @ [[Max (set (utility X))]]),
                   data := (data s0)(''qNEI'' \<mapsto> (X, c)), models := (models s0)(''qNEI'' \<mapsto> mq),
                   rng := r4, model := mq\<rparr>)" by blast
  define s1 where "s1 = s0\<lparr>best_vals := (best_vals s0)(''qNEI'' \<mapsto> Tq @ [[Max (set (utility X))]]),
                   data := (data s0)(''qNEI'' \<mapsto> (X, c)), models := (models s0)(''qNEI'' \<mapsto> mq),
                   rng := r4, model := mq\<rparr>"
  have k1: "best_vals s1 ''rand'' = Some Tr" using keys by (simp add: s1_def s0_def)
  from init_algo_step [OF k1 ne, of L c]
  obtain mr r5 where 2: "init_algo L X c ''rand'' s1 =
           Inr (s1\<lparr>best_vals := (best_vals s1)(''rand'' \<mapsto> Tr @ [[Max (set (utility X))]]),
                   data := (data s1)(''rand'' \<mapsto> (X, c)), models := (models s1)(''rand'' \<mapsto> mr),
                   rng := r5, model := mr\<rparr>)" by blast
  define s2 where "s2 = s1\<lparr>best_vals := (best_vals s1)(''rand'' \<mapsto> Tr @ [[Max (set (utility X))]]),
                   data := (data s1)(''rand'' \<mapsto> (X, c)), models := (models s1)(''rand'' \<mapsto> mr),
                   rng := r5, model := mr\<rparr>"
  have t: "trial_init L cfg st = Inr s2"
    using 1 2
    by (simp add: trial_init_def gd gc gt algos_def s0_def [symmetric] s1_def [symmetric]
        s2_def [symmetric])
  have "data s2 ''qNEI'' = Some (X, c)" "data s2 ''rand'' = Some (X, c)"
    "best_vals s2 ''qNEI'' = Some (Tq @ [[Max (set (utility X))]])"
    "best_vals s2 ''rand'' = Some (Tr @ [[Max (set (utility X))]])"
    "models s2 ''qNEI'' = Some mq" "models s2 ''rand'' = Some mr" "model s2 = mr"
    by (simp_all add: s2_def s1_def s0_def)
  with gd gc t lX lc v show ?thesis by blast
qed

lemma bindE_assoc: "bindE (bindE m f) g = bindE m (\<lambda>x. bindE (f x) g)"
  by (cases m) simp_all

lemma bindE_Inr_same [simp]: "bindE m Inr = m"
  by (cases m) simp_all

lemma for_each_single: "for_each body [x] s = body x s"
  by (simp split: sum.splits)

lemma after_batches_0:
  "after_batches L cfg m0 r0 i 0 = bindE (trial_start L cfg m0 r0 i) (trial_init L cfg)"
  by (simp add: after_batches_def cong: bindE_cong)

lemma for_each_single_fun: "for_each body [x] = body x"
  by (rule ext) (rule for_each_single)

lemma for_each_append_fun:
  "for_each body (xs @ ys) = (\<lambda>s. bindE (for_each body xs s) (for_each body ys))"
  by (rule ext) (rule for_each_append)

lemma after_batches_Suc:
  "after_batches L cfg m0 r0 i (Suc k) =
     bindE (after_batches L cfg m0 r0 i k) (batch L cfg (Suc k))"
proof -
  have "[1..<Suc k + 1] = [1..<k + 1] @ [Suc k]" by simp
  then show ?thesis
    unfolding after_batches_def
    by (simp only: for_each_append_fun bindE_assoc for_each_single_fun)
qed

lemma trial_start_Suc:
  "trial_start L cfg m0 r0 (Suc i) = after_batches L cfg m0 r0 i (NUM_BATCHES cfg)"
proof -
  have "trial_start L cfg m0 r0 (Suc i) = bindE (trial_start L cfg m0 r0 i) (trial L cfg i)"
    unfolding trial_start_def by (simp add: for_each_append for_each_single_fun)
  then show ?thesis
    by (simp add: after_batches_def trial_def [abs_def])
qed

lemma trial_loop_trial_start:
  "trial_loop L cfg m0 r0 = trial_start L cfg m0 r0 (NUM_TRIALS cfg)"
  by (simp add: trial_loop_def trial_start_def)

lemma dataset_at_eq:
  "after_batches L cfg m0 r0 i k = Inr st \<Longrightarrow> data st a = Some (X, c)
     \<Longrightarrow> dataset_at L cfg m0 r0 i k a = (X, c)"
  by (simp add: dataset_at_def)

lemma best_at_eq:
  "after_batches L cfg m0 r0 i k = Inr st \<Longrightarrow> data st a = Some (X, c)
     \<Longrightarrow> best_at L cfg m0 r0 a i k = Max (set (utility X))"
  by (simp add: best_at_def dataset_at_eq)

lemma trajectories_Suc:
  "trajectories L cfg m0 r0 a (Suc i) =
     trajectories L cfg m0 r0 a i @ [map (best_at L cfg m0 r0 a i) [0..<NUM_BATCHES cfg + 1]]"
  by (simp add: trajectories_def)

text \<open>From the state in which trial \<open>i\<close> starts to the state after \<open>k\<close> of its batches.\<close>

lemma batches_inv:
  assumes L: "rand_ok L" "choice_ok L" "normal_ok L" "acqf_ok L" and cfg: "cfg_ok cfg"
    and start: "trial_start L cfg m0 r0 i = Inr st0"
      "\<forall>a \<in> set algos. best_vals st0 a = Some (trajectories L cfg m0 r0 a i)"
  shows "\<exists>st. after_batches L cfg m0 r0 i k = Inr st \<and> in_trial st \<and>
           models st ''rand'' = Some (model st) \<and>
           (\<forall>a \<in> set algos. best_vals st a =
              Some (trajectories L cfg m0 r0 a i @ [map (best_at L cfg m0 r0 a i) [0..<k + 1]]))"
proof (induction k)
  case 0
  have keys: "best_vals st0 ''qNEI'' = Some (trajectories L cfg m0 r0 ''qNEI'' i)"
    "best_vals st0 ''rand'' = Some (trajectories L cfg m0 r0 ''rand'' i)"
    using start(2) by (simp_all add: algos_def)
  from trial_init_ok [OF L(1,2,3) cfg keys]
  obtain st X c mq mr where t: "trial_init L cfg st0 = Inr st"
    and X: "length X = q cfg" "idx_valid X c"
    and d: "data st ''qNEI'' = Some (X, c)" "data st ''rand'' = Some (X, c)"
    and b: "best_vals st ''qNEI'' = Some (trajectories L cfg m0 r0 ''qNEI'' i @ [[Max (set (utility X))]])"
      "best_vals st ''rand'' = Some (trajectories L cfg m0 r0 ''rand'' i @ [[Max (set (utility X))]])"
    and m: "models st ''qNEI'' = Some mq" "models st ''rand'' = Some mr" "model st = mr"
    by blast
  have a0: "after_batches L cfg m0 r0 i 0 = Inr st"
    by (simp add: after_batches_0 start(1) t)
  have ne: "X \<noteq> []" using X(1) cfg by (auto simp: cfg_ok_def)
  have "in_trial st"
    unfolding in_trial_def algos_def using d b m X(2) ne by simp
  moreover have "best_at L cfg m0 r0 ''qNEI'' i 0 = Max (set (utility X))"
    "best_at L cfg m0 r0 ''rand'' i 0 = Max (set (utility X))"
    using best_at_eq [OF a0] d by simp_all
  ultimately show ?case
    using a0 b m by (simp add: algos_def)
next
  case (Suc k)
  then obtain st where st: "after_batches L cfg m0 r0 i k = Inr st" "in_trial st"
    and bv: "\<forall>a \<in> set algos. best_vals st a =
              Some (trajectories L cfg m0 r0 a i @ [map (best_at L cfg m0 r0 a i) [0..<k + 1]])"
    by blast
  from batch_step [OF L cfg st(2), of "Suc k"]
  obtain st' where st': "batch L cfg (Suc k) st = Inr st'" "in_trial st'" "grows cfg st st'"
    "models st' ''rand'' = Some (model st')" by blast
  have a1: "after_batches L cfg m0 r0 i (Suc k) = Inr st'"
    by (simp add: after_batches_Suc st(1) st'(1))
  have "best_vals st' a =
      Some (trajectories L cfg m0 r0 a i @ [map (best_at L cfg m0 r0 a i) [0..<Suc k + 1]])"
    if a: "a \<in> set algos" for a
  proof -
    from st'(3) a obtain X c nX nc trajs where g: "data st a = Some (X, c)"
      "data st' a = Some (X @ nX, c @ nc)" "best_vals st a = Some trajs"
      "best_vals st' a = Some (butlast trajs @ [last trajs @ [Max (set (utility (X @ nX)))]])"
      unfolding grows_def by blast
    from bv a g(3) have trajs: "trajs =
        trajectories L cfg m0 r0 a i @ [map (best_at L cfg m0 r0 a i) [0..<k + 1]]" by simp
    have "best_at L cfg m0 r0 a i (Suc k) = Max (set (utility (X @ nX)))"
      by (rule best_at_eq [OF a1 g(2)])
    then show ?thesis
      unfolding g(4) trajs by simp
  qed
  with a1 st'(2,4) show ?case by blast
qed

lemma trial_start_inv:
  assumes L: "rand_ok L" "choice_ok L" "normal_ok L" "acqf_ok L" and cfg: "cfg_ok cfg"
  shows "\<exists>st. trial_start L cfg m0 r0 i = Inr st \<and>
           (\<forall>a \<in> set algos. best_vals st a = Some (trajectories L cfg m0 r0 a i))"
proof (induction i)
  case 0
  show ?case
    by (simp add: trial_start_def initial_state_def trajectories_def algos_def)
next
  case (Suc i)
  then obtain st0 where "trial_start L cfg m0 r0 i = Inr st0"
    "\<forall>a \<in> set algos. best_vals st0 a = Some (trajectories L cfg m0 r0 a i)" by blast
  from batches_inv [OF L cfg this, of "NUM_BATCHES cfg"]
  show ?case
    unfolding trial_start_Suc trajectories_Suc by blast
qed

lemma after_batches_inv:
  assumes L: "rand_ok L" "choice_ok L" "normal_ok L" "acqf_ok L" and cfg: "cfg_ok cfg"
  shows "\<exists>st. after_batches L cfg m0 r0 i k = Inr st \<and> in_trial st \<and>
           models st ''rand'' = Some (model st) \<and>
           (\<forall>a \<in> set algos. best_vals st a =
              Some (trajectories L cfg m0 r0 a i @ [map (best_at L cfg m0 r0 a i) [0..<k + 1]]))"
proof -
  from trial_start_inv [OF L cfg, of m0 r0 i]
  obtain st0 where "trial_start L cfg m0 r0 i = Inr st0"
    "\<forall>a \<in> set algos. best_vals st0 a = Some (trajectories L cfg m0 r0 a i)" by blast
  from batches_inv [OF L cfg this] show ?thesis .
qed

lemma after_batches_grows:
  assumes L: "rand_ok L" "choice_ok L" "normal_ok L" "acqf_ok L" and cfg: "cfg_ok cfg"
  shows "\<exists>st st'. after_batches L cfg m0 r0 i k = Inr st \<and>
           after_batches L cfg m0 r0 i (Suc k) = Inr st' \<and> grows cfg st st'"
proof -
  from after_batches_inv [OF L cfg, of m0 r0 i k]
  obtain st where st: "after_batches L cfg m0 r0 i k = Inr st" "in_trial st" by blast
  from batch_step [OF L cfg st(2), of "Suc k"]
  obtain st' where "batch L cfg (Suc k) st = Inr st'" "grows cfg st st'" by blast
  with st(1) show ?thesis by (simp add: after_batches_Suc)
qed

lemma dataset_at_in_trial:
  assumes L: "rand_ok L" "choice_ok L" "normal_ok L" "acqf_ok L" and cfg: "cfg_ok cfg"
    and a: "a \<in> set algos"
  shows "\<exists>st X c. after_batches L cfg m0 r0 i k = Inr st \<and> data st a = Some (X, c) \<and>
           X \<noteq> [] \<and> idx_valid X c \<and> dataset_at L cfg m0 r0 i k a = (X, c)"
proof -
  from after_batches_inv [OF L cfg, of m0 r0 i k]
  obtain st where st: "after_batches L cfg m0 r0 i k = Inr st" "in_trial st" by blast
  from st(2) a obtain X c where "data st a = Some (X, c)" "X \<noteq> []" "idx_valid X c"
    unfolding in_trial_def by blast
  with st(1) show ?thesis by (auto simp: dataset_at_eq)
qed

lemma dataset_at_Suc:
  assumes L: "rand_ok L" "choice_ok L" "normal_ok L" "acqf_ok L" and cfg: "cfg_ok cfg"
    and a: "a \<in> set algos"
  shows "\<exists>nX nc. dataset_at L cfg m0 r0 i (Suc k) a =
           (fst (dataset_at L cfg m0 r0 i k a) @ nX, snd (dataset_at L cfg m0 r0 i k a) @ nc) \<and>
           length nX = q cfg \<and> length nc = q_comp cfg"
proof -
  from after_batches_grows [OF L cfg, of m0 r0 i k]
  obtain st st' where s: "after_batches L cfg m0 r0 i k = Inr st"
    "after_batches L cfg m0 r0 i (Suc k) = Inr st'" "grows cfg st st'" by blast
  from s(3) a obtain X c nX nc where g: "data st a = Some (X, c)"
    "data st' a = Some (X @ nX, c @ nc)" "length nX = q cfg" "length nc = q_comp cfg"
    unfolding grows_def by blast
  show ?thesis
    using dataset_at_eq [OF s(1) g(1)] dataset_at_eq [OF s(2) g(2)] g(3,4) by simp
qed

lemma dataset_prefix:
  assumes L: "rand_ok L" "choice_ok L" "normal_ok L" "acqf_ok L" and cfg: "cfg_ok cfg"
    and a: "a \<in> set algos" and jk: "j \<le> k"
  shows "\<exists>X' c'. dataset_at L cfg m0 r0 i k a =
           (fst (dataset_at L cfg m0 r0 i j a) @ X', snd (dataset_at L cfg m0 r0 i j a) @ c')"
  using jk
proof (induction k rule: dec_induct)
  case base
  show ?case by (intro exI [of _ "[]"]) simp
next
  case (step n)
  then obtain X' c' where n: "dataset_at L cfg m0 r0 i n a =
           (fst (dataset_at L cfg m0 r0 i j a) @ X', snd (dataset_at L cfg m0 r0 i j a) @ c')"
    by blast
  from dataset_at_Suc [OF L cfg a, of m0 r0 i n]
  obtain nX nc where "dataset_at L cfg m0 r0 i (Suc n) a =
           (fst (dataset_at L cfg m0 r0 i n a) @ nX, snd (dataset_at L cfg m0 r0 i n a) @ nc)"
    by blast
  then show ?case unfolding n by simp
qed

lemma dataset_length:
  assumes L: "rand_ok L" "choice_ok L" "normal_ok L" "acqf_ok L" and cfg: "cfg_ok cfg"
    and a: "a \<in> set algos"
  shows "length (fst (dataset_at L cfg m0 r0 i k a)) = (k + 1) * q cfg \<and>
         length (snd (dataset_at L cfg m0 r0 i k a)) = (k + 1) * q_comp cfg"
proof (induction k)
  case 0
  from trial_start_inv [OF L cfg, of m0 r0 i]
  obtain st0 where s0: "trial_start L cfg m0 r0 i = Inr st0"
    "\<forall>a \<in> set algos. best_vals st0 a = Some (trajectories L cfg m0 r0 a i)" by blast
  then have keys: "best_vals st0 ''qNEI'' = Some (trajectories L cfg m0 r0 ''qNEI'' i)"
    "best_vals st0 ''rand'' = Some (trajectories L cfg m0 r0 ''rand'' i)"
    by (simp_all add: algos_def)
  from trial_init_ok [OF L(1,2,3) cfg keys]
  obtain st X c where t: "trial_init L cfg st0 = Inr st" "length X = q cfg" "length c = q_comp cfg"
    "data st ''qNEI'' = Some (X, c)" "data st ''rand'' = Some (X, c)" by blast
  have "after_batches L cfg m0 r0 i 0 = Inr st"
    by (simp add: after_batches_0 s0(1) t(1))
  moreover have "data st a = Some (X, c)" using a t(4,5) by (auto simp: algos_def)
  ultimately have "dataset_at L cfg m0 r0 i 0 a = (X, c)" by (rule dataset_at_eq)
  with t(2,3) show ?case by simp
next
  case (Suc k)
  from dataset_at_Suc [OF L cfg a, of m0 r0 i k] Suc show ?case by auto
qed

lemma best_at_mono:
  assumes L: "rand_ok L" "choice_ok L" "normal_ok L" "acqf_ok L" and cfg: "cfg_ok cfg"
    and a: "a \<in> set algos" and jk: "j \<le> k"
  shows "best_at L cfg m0 r0 a i j \<le> best_at L cfg m0 r0 a i k"
proof -
  from dataset_at_in_trial [OF L cfg a, of m0 r0 i j]
  obtain X c where j: "dataset_at L cfg m0 r0 i j a = (X, c)" "X \<noteq> []" by blast
  from dataset_prefix [OF L cfg a jk, of m0 r0 i]
  obtain X' c' where k: "dataset_at L cfg m0 r0 i k a = (X @ X', c @ c')"
    unfolding j by auto
  have "Max (set (utility X)) \<le> Max (set (utility (X @ X')))"
    by (rule Max_mono) (use j(2) in \<open>auto simp: utility_def\<close>)
  then show ?thesis by (simp add: best_at_def j k)
qed

lemma trial_loop_result:
  assumes L: "rand_ok L" "choice_ok L" "normal_ok L" "acqf_ok L" and cfg: "cfg_ok cfg"
  shows "\<exists>fin. trial_loop L cfg m0 r0 = Inr fin \<and>
           (\<forall>a \<in> set algos. best_vals fin a = Some (trajectories L cfg m0 r0 a (NUM_TRIALS cfg)))"
  unfolding trial_loop_trial_start by (rule trial_start_inv [OF L cfg])

lemma trajectories_nth:
  "i < n \<Longrightarrow> trajectories L cfg m0 r0 a n ! i
     = map (best_at L cfg m0 r0 a i) [0..<NUM_BATCHES cfg + 1]"
  by (simp add: trajectories_def)

lemma initial_dataset:
  assumes L: "rand_ok L" "choice_ok L" "normal_ok L" "acqf_ok L" and cfg: "cfg_ok cfg"
  shows "\<exists>st0 st init_X comparisons r1 r2.
           trial_start L cfg m0 r0 i = Inr st0 \<and>
           generate_data L (q cfg) (dim' cfg) (rng st0) = ((init_X, utility init_X), r1) \<and>
           generate_comparisons L (utility init_X) (q_comp cfg) (noise cfg) False r1
             = Inr (comparisons, r2) \<and>
           trial_init L cfg st0 = Inr st \<and> after_batches L cfg m0 r0 i 0 = Inr st \<and>
           length init_X = q cfg \<and> length comparisons = q_comp cfg \<and>
           data st ''qNEI'' = Some (init_X, comparisons) \<and>
           data st ''rand'' = Some (init_X, comparisons)"
proof -
  from trial_start_inv [OF L cfg, of m0 r0 i]
  obtain st0 where s0: "trial_start L cfg m0 r0 i = Inr st0"
    "\<forall>a \<in> set algos. best_vals st0 a = Some (trajectories L cfg m0 r0 a i)" by blast
  then have keys: "best_vals st0 ''qNEI'' = Some (trajectories L cfg m0 r0 ''qNEI'' i)"
    "best_vals st0 ''rand'' = Some (trajectories L cfg m0 r0 ''rand'' i)"
    by (simp_all add: algos_def)
  from trial_init_ok [OF L(1,2,3) cfg keys]
  obtain st X c r1 r2 where t:
    "generate_data L (q cfg) (dim' cfg) (rng st0) = ((X, utility X), r1)"
    "generate_comparisons L (utility X) (q_comp cfg) (noise cfg) False r1 = Inr (c, r2)"
    "trial_init L cfg st0 = Inr st" "length X = q cfg" "length c = q_comp cfg"
    "data st ''qNEI'' = Some (X, c)" "data st ''rand'' = Some (X, c)" by blast
  have "after_batches L cfg m0 r0 i 0 = Inr st"
    by (simp add: after_batches_0 s0(1) t(3))
  with s0(1) t show ?thesis by blast
qed

section \<open>The datasets of the loop\<close>

text \<open>
  Claim C4.  Let the libraries keep their contracts and the constants allow the draws.
  In every trial \<open>i\<close> and for every variant \<open>a\<close>, after \<open>k\<close> batches the run has not
  failed, the variant's dataset holds \<open>(k + 1) * q\<close> points, and every index in its
  comparison array is below the number of its points.  The point collection and the
  comparison array are append-only: for every \<open>j \<le> k\<close> the dataset after \<open>j\<close> batches
  is an initial segment of the dataset after \<open>k\<close> batches, so earlier points keep their
  indices and earlier comparisons stay in place and valid.
\<close>

theorem comparison_indices_valid_append_only:
  assumes "rand_ok L" and "choice_ok L" and "normal_ok L" and "acqf_ok L" and "cfg_ok cfg"
    and "i < NUM_TRIALS cfg" and "k \<le> NUM_BATCHES cfg" and "a \<in> set algos"
  shows "\<exists>st X c. after_batches L cfg m0 r0 i k = Inr st \<and> data st a = Some (X, c) \<and>
           length X = (k + 1) * q cfg \<and>
           (\<forall>(w, l) \<in> set c. w < length X \<and> l < length X) \<and>
           (\<forall>j \<le> k. \<exists>st' X' c'. after_batches L cfg m0 r0 i j = Inr st' \<and>
              data st' a = Some (X', c') \<and> take (length X') X = X' \<and> take (length c') c = c')"
proof -
  note L = assms(1-5) and a = assms(8)
  from dataset_at_in_trial [OF L a, of m0 r0 i k]
  obtain st X c where k: "after_batches L cfg m0 r0 i k = Inr st" "data st a = Some (X, c)"
    "idx_valid X c" "dataset_at L cfg m0 r0 i k a = (X, c)" by blast
  have len: "length X = (k + 1) * q cfg"
    using dataset_length [OF L a, of m0 r0 i k] k(4) by simp
  have "\<exists>st' X' c'. after_batches L cfg m0 r0 i j = Inr st' \<and>
              data st' a = Some (X', c') \<and> take (length X') X = X' \<and> take (length c') c = c'"
    if "j \<le> k" for j
  proof -
    from dataset_at_in_trial [OF L a, of m0 r0 i j]
    obtain st' X' c' where j: "after_batches L cfg m0 r0 i j = Inr st'" "data st' a = Some (X', c')"
      "dataset_at L cfg m0 r0 i j a = (X', c')" by blast
    from dataset_prefix [OF L a that, of m0 r0 i] obtain X'' c'' where
      "X = X' @ X''" "c = c' @ c''" unfolding k(4) j(3) by auto
    with j(1,2) show ?thesis by auto
  qed
  with k(1,2,3) len show ?thesis unfolding idx_valid_def by blast
qed

text \<open>
  Claim C5.  Under the same conditions the whole loop returns, and for every variant
  \<open>a\<close> it has recorded one trajectory per trial.  The trajectory of trial \<open>i\<close> has
  \<open>NUM_BATCHES + 1\<close> entries and is non-decreasing, and its entry \<open>k\<close> is the maximum
  true utility over the points of the variant's dataset after \<open>k\<close> batches of that
  trial (entry \<open>0\<close>: the initial dataset).
\<close>

theorem best_values_running_maximum:
  assumes "rand_ok L" and "choice_ok L" and "normal_ok L" and "acqf_ok L" and "cfg_ok cfg"
    and "a \<in> set algos"
  shows "\<exists>fin trajs. trial_loop L cfg m0 r0 = Inr fin \<and> best_vals fin a = Some trajs \<and>
           length trajs = NUM_TRIALS cfg \<and>
           (\<forall>i < NUM_TRIALS cfg.
              length (trajs ! i) = NUM_BATCHES cfg + 1 \<and> sorted (trajs ! i) \<and>
              (\<forall>k \<le> NUM_BATCHES cfg. \<exists>st X c.
                 after_batches L cfg m0 r0 i k = Inr st \<and> data st a = Some (X, c) \<and>
                 X \<noteq> [] \<and> trajs ! i ! k = Max (set (utility X))))"
proof -
  note L = assms(1-5) and a = assms(6)
  let ?T = "trajectories L cfg m0 r0 a (NUM_TRIALS cfg)"
  from trial_loop_result [OF L, of m0 r0] a
  obtain fin where fin: "trial_loop L cfg m0 r0 = Inr fin" "best_vals fin a = Some ?T" by blast
  have len: "length ?T = NUM_TRIALS cfg" by (simp add: trajectories_def)
  have "length (?T ! i) = NUM_BATCHES cfg + 1 \<and> sorted (?T ! i) \<and>
              (\<forall>k \<le> NUM_BATCHES cfg. \<exists>st X c.
                 after_batches L cfg m0 r0 i k = Inr st \<and> data st a = Some (X, c) \<and>
                 X \<noteq> [] \<and> ?T ! i ! k = Max (set (utility X)))"
    if i: "i < NUM_TRIALS cfg" for i
  proof (intro conjI allI impI)
    show "length (?T ! i) = NUM_BATCHES cfg + 1"
      by (simp add: trajectories_nth [OF i])
    show "sorted (?T ! i)"
      unfolding trajectories_nth [OF i] sorted_iff_nth_mono
    proof (intro allI impI)
      fix j k
      assume "j \<le> k" "k < length (map (best_at L cfg m0 r0 a i) [0..<NUM_BATCHES cfg + 1])"
      then show "map (best_at L cfg m0 r0 a i) [0..<NUM_BATCHES cfg + 1] ! j
                   \<le> map (best_at L cfg m0 r0 a i) [0..<NUM_BATCHES cfg + 1] ! k"
        using best_at_mono [OF L a, of j k m0 r0 i] by (simp del: upt_Suc)
    qed
    fix k assume k: "k \<le> NUM_BATCHES cfg"
    from dataset_at_in_trial [OF L a, of m0 r0 i k]
    obtain st X c where s: "after_batches L cfg m0 r0 i k = Inr st" "data st a = Some (X, c)"
      "X \<noteq> []" by blast
    have "?T ! i ! k = best_at L cfg m0 r0 a i k"
      using k by (simp add: trajectories_nth [OF i] nth_append del: upt_Suc)
    also have "\<dots> = Max (set (utility X))" by (rule best_at_eq [OF s(1,2)])
    finally show "\<exists>st X c. after_batches L cfg m0 r0 i k = Inr st \<and> data st a = Some (X, c) \<and>
                 X \<noteq> [] \<and> ?T ! i ! k = Max (set (utility X))"
      using s by blast
  qed
  with fin len show ?thesis by blast
qed

text \<open>
  Claim C10.  In every trial \<open>i\<close>, the initial points \<open>init_X\<close> and the initial
  comparisons are drawn once, from the random state in which the trial starts, and
  after the first loop over the variants both \<^verbatim>\<open>data["qNEI"]\<close> and
  \<^verbatim>\<open>data["rand"]\<close> hold exactly this pair: the same \<open>q\<close> points and the same
  \<open>q_comp\<close> comparisons.
\<close>

theorem variants_share_initial_dataset:
  assumes "rand_ok L" and "choice_ok L" and "normal_ok L" and "acqf_ok L" and "cfg_ok cfg"
    and "i < NUM_TRIALS cfg"
  shows "\<exists>st0 st init_X comparisons r1 r2.
           trial_start L cfg m0 r0 i = Inr st0 \<and>
           generate_data L (q cfg) (dim' cfg) (rng st0) = ((init_X, utility init_X), r1) \<and>
           generate_comparisons L (utility init_X) (q_comp cfg) (noise cfg) False r1
             = Inr (comparisons, r2) \<and>
           trial_init L cfg st0 = Inr st \<and> after_batches L cfg m0 r0 i 0 = Inr st \<and>
           length init_X = q cfg \<and> length comparisons = q_comp cfg \<and>
           data st ''qNEI'' = Some (init_X, comparisons) \<and>
           data st ''rand'' = Some (init_X, comparisons)"
  by (rule initial_dataset [OF assms(1-5)])

section \<open>A run of the loop on the stand-in\<close>

text \<open>
  One trial of two batches with two points and one comparison per query in dimension
  one, evaluated on the stand-in libraries: the state after the initialisation, after
  the first and after the second batch.
\<close>

lemma combinations2_num: "combinations2 2 = [(0, 1)]"
  by (simp add: combinations2_def upt_rec)

lemma demo_more:
  "PairwiseGP demo_library X c = (X, c)"
  "load_state_dict demo_library m s = m"
  "fit_gpytorch_model demo_library m r = (m, r)"
  "optimize_acqf demo_library acq bnds n nr ns r =
     (replicate n (case fst (acq_model acq) of [] \<Rightarrow> last bnds | x # xs \<Rightarrow> last (x # xs)), r)"
  by (simp_all add: demo_library_def)

lemma small_numerals:
  "(3::nat) = Suc (Suc (Suc 0))" "(4::nat) = Suc (Suc (Suc (Suc 0)))"
  "(5::nat) = Suc (Suc (Suc (Suc (Suc 0))))"
  by simp_all

lemmas loop_simps = trial_init_def init_algo_def generate_data_def generate_comparisons_def
  init_and_fit_model_def record_best_def tensor_max_def utility_def utility_point_def
  sqrt_weights_def algos_def batch_def batch_algo_def propose_def make_new_data_def bounds_def
  demo_config_def run_simps combinations2_num demo_more Let_def numeral_2_eq_2
  small_numerals

lemma demo_after_0:
  "after_batches demo_library demo_config ([], []) 0 0 0 =
     Inr \<lparr>best_vals = [''qNEI'' \<mapsto> [[0]], ''rand'' \<mapsto> [[0]]],
          data = [''qNEI'' \<mapsto> ([[0], [0]], [(0, 1)]),
                  ''rand'' \<mapsto> ([[0], [0]], [(0, 1)])],
          models = [''qNEI'' \<mapsto> ([[0], [0]], [(0, 1)]),
                    ''rand'' \<mapsto> ([[0], [0]], [(0, 1)])],
          model = ([[0], [0]], [(0, 1)]), rng = 2\<rparr>"
  by (simp add: after_batches_0 trial_start_def initial_state_def loop_simps)

lemma demo_after_1:
  "after_batches demo_library demo_config ([], []) 0 0 1 =
     Inr \<lparr>best_vals = [''qNEI'' \<mapsto> [[0, 0]], ''rand'' \<mapsto> [[0, 2 / 3]]],
          data = [''qNEI'' \<mapsto> ([[0], [0], [0], [0]], [(0, 1), (2, 3)]),
                  ''rand'' \<mapsto> ([[0], [0], [2 / 3], [2 / 3]], [(0, 1), (2, 3)])],
          models = [''qNEI'' \<mapsto> ([[0], [0], [0], [0]], [(0, 1), (2, 3)]),
                    ''rand'' \<mapsto> ([[0], [0], [2 / 3], [2 / 3]], [(0, 1), (2, 3)])],
          model = ([[0], [0], [2 / 3], [2 / 3]], [(0, 1), (2, 3)]), rng = 3\<rparr>"
  unfolding One_nat_def after_batches_Suc demo_after_0
  by (simp add: loop_simps)

lemma demo_after_2:
  "after_batches demo_library demo_config ([], []) 0 0 2 =
     Inr \<lparr>best_vals = [''qNEI'' \<mapsto> [[0, 0, 2 / 3]], ''rand'' \<mapsto> [[0, 2 / 3, 3 / 4]]],
          data = [''qNEI'' \<mapsto> ([[0], [0], [0], [0], [2 / 3], [2 / 3]],
                               [(0, 1), (2, 3), (4, 5)]),
                  ''rand'' \<mapsto> ([[0], [0], [2 / 3], [2 / 3], [3 / 4], [3 / 4]],
                               [(0, 1), (2, 3), (4, 5)])],
          models = [''qNEI'' \<mapsto> ([[0], [0], [0], [0], [2 / 3], [2 / 3]],
                               [(0, 1), (2, 3), (4, 5)]),
                    ''rand'' \<mapsto> ([[0], [0], [2 / 3], [2 / 3], [3 / 4], [3 / 4]],
                               [(0, 1), (2, 3), (4, 5)])],
          model = ([[0], [0], [2 / 3], [2 / 3], [3 / 4], [3 / 4]],
                   [(0, 1), (2, 3), (4, 5)]), rng = 4\<rparr>"
proof -
  have "after_batches demo_library demo_config ([], []) 0 0 (Suc 1) =
      bindE (after_batches demo_library demo_config ([], []) 0 0 1)
        (batch demo_library demo_config (Suc 1))"
    by (rule after_batches_Suc)
  then show ?thesis
    unfolding demo_after_1 by (simp add: loop_simps)
qed

lemma demo_cfg_ok: "cfg_ok demo_config"
  by (simp add: cfg_ok_def demo_config_def choose_two)

lemma demo_bounds: "0 < NUM_TRIALS demo_config" "2 \<le> NUM_BATCHES demo_config"
  "NUM_TRIALS demo_config = 1" "NUM_BATCHES demo_config = 2" "dim' demo_config = 1"
  by (simp_all add: demo_config_def)

lemma demo_trial_loop:
  "trial_loop demo_library demo_config ([], []) 0 = after_batches demo_library demo_config ([], []) 0 0 2"
  unfolding trial_loop_trial_start demo_bounds One_nat_def trial_start_Suc
  by (simp add: demo_bounds)

theorem comparison_indices_valid_append_only_witness:
  "rand_ok demo_library \<and> choice_ok demo_library \<and> normal_ok demo_library \<and>
   acqf_ok demo_library \<and> cfg_ok demo_config \<and> 0 < NUM_TRIALS demo_config \<and>
   2 \<le> NUM_BATCHES demo_config \<and> ''qNEI'' \<in> set algos \<and>
   (\<exists>st X c. after_batches demo_library demo_config ([], []) 0 0 2 = Inr st \<and>
      data st ''qNEI'' = Some (X, c) \<and>
      X = [[0], [0], [0], [0], [2 / 3], [2 / 3]] \<and> c = [(0, 1), (2, 3), (4, 5)] \<and>
      length X = (2 + 1) * q demo_config \<and>
      (\<forall>(w, l) \<in> set c. w < length X \<and> l < length X) \<and>
      (\<forall>j \<le> 2. \<exists>st' X' c'. after_batches demo_library demo_config ([], []) 0 0 j = Inr st' \<and>
         data st' ''qNEI'' = Some (X', c') \<and> take (length X') X = X' \<and> take (length c') c = c'))"
proof -
  have a: "''qNEI'' \<in> set algos" by (simp add: algos_def)
  from comparison_indices_valid_append_only
    [OF demo_library_ok demo_cfg_ok demo_bounds(1,2) a, of "([], [])" 0]
  have "\<exists>st X c. after_batches demo_library demo_config ([], []) 0 0 2 = Inr st \<and>
      data st ''qNEI'' = Some (X, c) \<and>
      X = [[0], [0], [0], [0], [2 / 3], [2 / 3]] \<and> c = [(0, 1), (2, 3), (4, 5)] \<and>
      length X = (2 + 1) * q demo_config \<and>
      (\<forall>(w, l) \<in> set c. w < length X \<and> l < length X) \<and>
      (\<forall>j \<le> 2. \<exists>st' X' c'. after_batches demo_library demo_config ([], []) 0 0 j = Inr st' \<and>
         data st' ''qNEI'' = Some (X', c') \<and> take (length X') X = X' \<and> take (length c') c = c')"
    unfolding demo_after_2 by auto
  then show ?thesis
    by (intro conjI demo_library_ok demo_cfg_ok demo_bounds(1,2) a)
qed

theorem best_values_running_maximum_witness:
  "rand_ok demo_library \<and> choice_ok demo_library \<and> normal_ok demo_library \<and>
   acqf_ok demo_library \<and> cfg_ok demo_config \<and> ''rand'' \<in> set algos \<and>
   (\<exists>fin trajs. trial_loop demo_library demo_config ([], []) 0 = Inr fin \<and>
      best_vals fin ''rand'' = Some trajs \<and> trajs = [[0, 2 / 3, 3 / 4]] \<and>
      length trajs = NUM_TRIALS demo_config \<and>
      (\<forall>i < NUM_TRIALS demo_config.
         length (trajs ! i) = NUM_BATCHES demo_config + 1 \<and> sorted (trajs ! i) \<and>
         (\<forall>k \<le> NUM_BATCHES demo_config. \<exists>st X c.
            after_batches demo_library demo_config ([], []) 0 i k = Inr st \<and>
            data st ''rand'' = Some (X, c) \<and> X \<noteq> [] \<and>
            trajs ! i ! k = Max (set (utility X)))))"
proof -
  have a: "''rand'' \<in> set algos" by (simp add: algos_def)
  from best_values_running_maximum [OF demo_library_ok demo_cfg_ok a, of "([], [])" 0]
  have "\<exists>fin trajs. trial_loop demo_library demo_config ([], []) 0 = Inr fin \<and>
      best_vals fin ''rand'' = Some trajs \<and> trajs = [[0, 2 / 3, 3 / 4]] \<and>
      length trajs = NUM_TRIALS demo_config \<and>
      (\<forall>i < NUM_TRIALS demo_config.
         length (trajs ! i) = NUM_BATCHES demo_config + 1 \<and> sorted (trajs ! i) \<and>
         (\<forall>k \<le> NUM_BATCHES demo_config. \<exists>st X c.
            after_batches demo_library demo_config ([], []) 0 i k = Inr st \<and>
            data st ''rand'' = Some (X, c) \<and> X \<noteq> [] \<and>
            trajs ! i ! k = Max (set (utility X))))"
    unfolding demo_trial_loop demo_after_2 by auto
  then show ?thesis
    by (intro conjI demo_library_ok demo_cfg_ok a)
qed

theorem variants_share_initial_dataset_witness:
  "rand_ok demo_library \<and> choice_ok demo_library \<and> normal_ok demo_library \<and>
   acqf_ok demo_library \<and> cfg_ok demo_config \<and> 0 < NUM_TRIALS demo_config \<and>
   (\<exists>st. after_batches demo_library demo_config ([], []) 0 0 0 = Inr st \<and>
      data st ''qNEI'' = Some ([[0], [0]], [(0, 1)]) \<and>
      data st ''rand'' = Some ([[0], [0]], [(0, 1)]))"
proof -
  from variants_share_initial_dataset [OF demo_library_ok demo_cfg_ok demo_bounds(1), of "([], [])" 0]
  have "\<exists>st. after_batches demo_library demo_config ([], []) 0 0 0 = Inr st \<and>
      data st ''qNEI'' = Some ([[0], [0]], [(0, 1)]) \<and>
      data st ''rand'' = Some ([[0], [0]], [(0, 1)])"
    unfolding demo_after_0 by auto
  then show ?thesis
    by (intro conjI demo_library_ok demo_cfg_ok demo_bounds(1))
qed

section \<open>The recorded values and the optimum\<close>

lemma utility_le_optimal_val:
  assumes "in_unit_cube (dim' cfg) x"
  shows "utility_point x \<le> optimal_val cfg"
proof -
  from assms have "length x = dim' cfg" "\<forall>t \<in> set x. t \<le> 1"
    by (simp_all add: in_unit_cube_def)
  with utility_point_le_ones [of x] show ?thesis
    by (simp add: optimal_val_utility_point)
qed

lemma best_at_le_optimal_val:
  assumes L: "rand_ok L" "choice_ok L" "normal_ok L" "acqf_ok L" and cfg: "cfg_ok cfg"
    and a: "a \<in> set algos" and cube: "datasets_in_unit_cube L cfg m0 r0 a"
    and i: "i < NUM_TRIALS cfg" and k: "k \<le> NUM_BATCHES cfg"
  shows "best_at L cfg m0 r0 a i k \<le> optimal_val cfg"
proof -
  from dataset_at_in_trial [OF L cfg a, of m0 r0 i k]
  obtain X c where d: "dataset_at L cfg m0 r0 i k a = (X, c)" "X \<noteq> []" by blast
  from cube i k d(1) have "\<forall>x \<in> set X. in_unit_cube (dim' cfg) x"
    unfolding datasets_in_unit_cube_def by auto
  then have "\<forall>v \<in> set (utility X). v \<le> optimal_val cfg"
    by (auto simp: utility_def utility_le_optimal_val)
  moreover have "set (utility X) \<noteq> {}" using d(2) by (simp add: utility_def)
  ultimately have "Max (set (utility X)) \<le> optimal_val cfg" by simp
  then show ?thesis by (simp add: best_at_def d(1))
qed

text \<open>
  Claim C8.  A point of the unit cube has at most the utility of the all-ones point of
  its dimension; \<open>optimal_val\<close>, the utility of the all-ones point of dimension
  \<open>dim\<close>, is the sum of \<open>\<surd>i\<close> for \<open>i = 1, \<dots>, dim\<close>, which for the script's
  \<open>dim = 5\<close> lies between \<open>8.3823\<close> and \<open>8.3824\<close>, within \<open>0.0005\<close> of \<open>8.3820\<close>.
  Under the precondition that every dataset of a variant holds only points of the unit
  cube, no value recorded for that variant exceeds \<open>optimal_val\<close>.
\<close>

theorem best_values_bounded_by_optimum:
  "(\<forall>x. in_unit_cube (length x) x \<longrightarrow>
      utility [x] ! 0 \<le> utility [replicate (length x) 1] ! 0) \<and>
   optimal_val cfg = (\<Sum>i = 1..dim' cfg. sqrt (real i)) \<and>
   83823 / 10000 < optimal_val script_config \<and> optimal_val script_config < 83824 / 10000 \<and>
   \<bar>optimal_val script_config - 8382 / 1000\<bar> < 5 / 10000 \<and>
   (rand_ok L \<longrightarrow> choice_ok L \<longrightarrow> normal_ok L \<longrightarrow> acqf_ok L \<longrightarrow> cfg_ok cfg \<longrightarrow>
    a \<in> set algos \<longrightarrow> datasets_in_unit_cube L cfg m0 r0 a \<longrightarrow>
      (\<exists>fin trajs. trial_loop L cfg m0 r0 = Inr fin \<and> best_vals fin a = Some trajs \<and>
         (\<forall>t \<in> set trajs. \<forall>v \<in> set t. v \<le> optimal_val cfg)))"
proof (intro conjI allI impI)
  fix x assume "in_unit_cube (length x) x"
  then show "utility [x] ! 0 \<le> utility [replicate (length x) 1] ! 0"
    using utility_point_le_ones [of x] by (simp add: utility_def in_unit_cube_def)
next
  show "optimal_val cfg = (\<Sum>i = 1..dim' cfg. sqrt (real i))"
    by (simp add: optimal_val_utility_point utility_point_ones)
next
  show "83823 / 10000 < optimal_val script_config" "optimal_val script_config < 83824 / 10000"
    by (rule optimal_val_script_bounds)+
next
  show "\<bar>optimal_val script_config - 8382 / 1000\<bar> < 5 / 10000"
    using optimal_val_script_bounds by linarith
next
  assume L: "rand_ok L" "choice_ok L" "normal_ok L" "acqf_ok L" and cfg: "cfg_ok cfg"
    and a: "a \<in> set algos" and cube: "datasets_in_unit_cube L cfg m0 r0 a"
  let ?T = "trajectories L cfg m0 r0 a (NUM_TRIALS cfg)"
  from trial_loop_result [OF L cfg, of m0 r0] a
  obtain fin where fin: "trial_loop L cfg m0 r0 = Inr fin" "best_vals fin a = Some ?T" by blast
  have "v \<le> optimal_val cfg" if "t \<in> set ?T" "v \<in> set t" for t v
  proof -
    from that(1) obtain i where i: "i < NUM_TRIALS cfg"
      "t = map (best_at L cfg m0 r0 a i) [0..<NUM_BATCHES cfg + 1]"
      by (auto simp: trajectories_def)
    from that(2) i(2) obtain k where "k < NUM_BATCHES cfg + 1" "v = best_at L cfg m0 r0 a i k"
      by (auto simp del: upt_Suc)
    then have k: "k \<le> NUM_BATCHES cfg" "v = best_at L cfg m0 r0 a i k" by simp_all
    show ?thesis unfolding k(2) by (rule best_at_le_optimal_val [OF L cfg a cube i(1) k(1)])
  qed
  with fin show "\<exists>fin trajs. trial_loop L cfg m0 r0 = Inr fin \<and> best_vals fin a = Some trajs \<and>
         (\<forall>t \<in> set trajs. \<forall>v \<in> set t. v \<le> optimal_val cfg)"
    by blast
qed

lemma demo_datasets_in_unit_cube:
  "datasets_in_unit_cube demo_library demo_config ([], []) 0 ''rand''"
  unfolding datasets_in_unit_cube_def demo_bounds
proof (intro allI impI)
  fix i k :: nat
  assume "i < 1" "k \<le> 2"
  then consider "i = 0" "k = 0" | "i = 0" "k = 1" | "i = 0" "k = 2" by linarith
  then show "\<forall>x \<in> set (fst (dataset_at demo_library demo_config ([], []) 0 i k ''rand'')).
               in_unit_cube 1 x"
  proof cases
    case 1
    then show ?thesis by (simp add: dataset_at_def demo_after_0 in_unit_cube_def)
  next
    case 2
    then show ?thesis
      by (simp add: dataset_at_def demo_after_1 [unfolded One_nat_def] in_unit_cube_def)
  next
    case 3
    then show ?thesis by (simp add: dataset_at_def demo_after_2 in_unit_cube_def)
  qed
qed

theorem best_values_bounded_by_optimum_witness:
  "in_unit_cube (length [1 / 2, 1 :: real]) [1 / 2, 1] \<and>
   utility [[1 / 2, 1]] ! 0 \<le> utility [replicate (length [1 / 2, 1 :: real]) 1] ! 0 \<and>
   rand_ok demo_library \<and> choice_ok demo_library \<and> normal_ok demo_library \<and>
   acqf_ok demo_library \<and> cfg_ok demo_config \<and> ''rand'' \<in> set algos \<and>
   datasets_in_unit_cube demo_library demo_config ([], []) 0 ''rand'' \<and>
   optimal_val demo_config = 1 \<and>
   (\<exists>fin trajs. trial_loop demo_library demo_config ([], []) 0 = Inr fin \<and>
      best_vals fin ''rand'' = Some trajs \<and> trajs = [[0, 2 / 3, 3 / 4]] \<and>
      (\<forall>t \<in> set trajs. \<forall>v \<in> set t. v \<le> optimal_val demo_config))"
proof -
  have a: "''rand'' \<in> set algos" by (simp add: algos_def)
  have c: "in_unit_cube (length [1 / 2, 1 :: real]) [1 / 2, 1]"
    by (simp add: in_unit_cube_def)
  note t = best_values_bounded_by_optimum
    [of demo_config demo_library "''rand''" "([], [])" 0]
  from t c have u: "utility [[1 / 2, 1]] ! 0 \<le> utility [replicate (length [1 / 2, 1 :: real]) 1] ! 0"
    by blast
  from t have o: "optimal_val demo_config = 1"
    by (simp add: demo_bounds)
  from t demo_library_ok demo_cfg_ok a demo_datasets_in_unit_cube
  have "\<exists>fin trajs. trial_loop demo_library demo_config ([], []) 0 = Inr fin \<and>
      best_vals fin ''rand'' = Some trajs \<and>
      (\<forall>t \<in> set trajs. \<forall>v \<in> set t. v \<le> optimal_val demo_config)"
    by blast
  then have "\<exists>fin trajs. trial_loop demo_library demo_config ([], []) 0 = Inr fin \<and>
      best_vals fin ''rand'' = Some trajs \<and> trajs = [[0, 2 / 3, 3 / 4]] \<and>
      (\<forall>t \<in> set trajs. \<forall>v \<in> set t. v \<le> optimal_val demo_config)"
    unfolding demo_trial_loop demo_after_2 by auto
  then show ?thesis
    by (intro conjI demo_library_ok demo_cfg_ok a c u o demo_datasets_in_unit_cube)
qed

section \<open>The model behind the acquisition function\<close>

text \<open>
  At the start of every batch the variable \<^verbatim>\<open>model\<close> holds the model of the variant
  \<^verbatim>\<open>rand\<close>, the last one refitted, and the proposing step of \<^verbatim>\<open>qNEI\<close> builds its
  acquisition function from that variable.
\<close>

lemma qNEI_acquisition_model:
  assumes "rand_ok L" and "choice_ok L" and "normal_ok L" and "acqf_ok L" and "cfg_ok cfg"
  shows "\<exists>st Xq cq mr. after_batches L cfg m0 r0 i k = Inr st \<and>
           data st ''qNEI'' = Some (Xq, cq) \<and> models st ''rand'' = Some mr \<and>
           propose L cfg ''qNEI'' st =
             (let (next_X, r') = optimize_acqf L \<lparr>acq_model = mr, X_baseline = Xq\<rparr> (bounds cfg)
                                   (q cfg) (num_restarts cfg) (num_raw_samples cfg) (rng st)
              in Inr (next_X, st\<lparr>rng := r'\<rparr>))"
proof -
  from after_batches_inv [OF assms, of m0 r0 i k]
  obtain st where st: "after_batches L cfg m0 r0 i k = Inr st" "in_trial st"
    "models st ''rand'' = Some (model st)" by blast
  from st(2) obtain Xq cq where d: "data st ''qNEI'' = Some (Xq, cq)"
    unfolding in_trial_def algos_def by auto
  show ?thesis
    using st(1,3) d by (auto simp: propose_def)
qed

text \<open>
  Claim C1 says that the proposing step of \<^verbatim>\<open>qNEI\<close> uses the model of \<^verbatim>\<open>qNEI\<close>.
  On the stand-in, after the first batch the two variants have different datasets and
  different models, the variable \<^verbatim>\<open>model\<close> holds the model of \<^verbatim>\<open>rand\<close>, and the
  proposal of \<^verbatim>\<open>qNEI\<close> for the second batch is the most recent point of the
  dataset of \<^verbatim>\<open>rand\<close>: the optimiser was given the model of \<^verbatim>\<open>rand\<close>.
\<close>

theorem qNEI_proposal_uses_rand_model:
  "\<exists>st. after_batches demo_library demo_config ([], []) 0 0 1 = Inr st \<and>
     data st ''qNEI'' = Some ([[0], [0], [0], [0]], [(0, 1), (2, 3)]) \<and>
     models st ''qNEI'' = Some ([[0], [0], [0], [0]], [(0, 1), (2, 3)]) \<and>
     models st ''rand'' = Some ([[0], [0], [2 / 3], [2 / 3]], [(0, 1), (2, 3)]) \<and>
     model st = ([[0], [0], [2 / 3], [2 / 3]], [(0, 1), (2, 3)]) \<and>
     propose demo_library demo_config ''qNEI'' st = Inr ([[2 / 3], [2 / 3]], st)"
  unfolding demo_after_1
  by (simp add: propose_def demo_more demo_config_def bounds_def numeral_2_eq_2)

end
